theory Spec2Isabelle
  imports Complex_Main "HOL-Library.Log_Nat"
begin

section \<open>Employee portal: credential verification and transaction authorisation\<close>

text \<open>
  A shallow embedding of \<^verbatim>\<open>server/models/Employee.js\<close> and
  \<^verbatim>\<open>server/routes/employees.js\<close>.

  Conventions of the model:
  \<^item> a Mongoose document is a record, a collection is the list of its documents, and
    \<^verbatim>\<open>findOne\<close> returns the first document that satisfies the query;
  \<^item> a route handler takes the request and the world (both collections, the log of
    calls made to the stores and to the password hasher, the audit log) and returns the
    HTTP response with the new world;
  \<^item> a thrown \<^verbatim>\<open>Error\<close> is the \<open>Inl\<close> of a sum, carrying the message;
  \<^item> \<^verbatim>\<open>Date.now()\<close> is a parameter \<open>now\<close> (milliseconds); one request is
    handled at one clock reading;
  \<^item> a JavaScript Number is a binary64 value and is modelled by its exact value: the
    integer-valued counter \<^verbatim>\<open>failedLoginAttempts\<close> as an \<open>int\<close>, with the
    rounding of \<^verbatim>\<open>+ 1\<close> written out (\<open>js_add1\<close>), a monetary amount as a \<open>rat\<close>
    (every finite double is a rational, and \<^verbatim>\<open>>\<close> on doubles agrees with
    \<open>>\<close> on their values); \<open>toNumber\<close> is the rounding of a decimal to the Number
    that holds it;
  \<^item> \<^verbatim>\<open>argon2.verify\<close> and the signing of tokens are external libraries: the
    hasher is a parameter, a token is its claims together with the key that signed it;
  \<^item> the cast error of a query on \<^verbatim>\<open>_id\<close> is modelled; a failure of the database
    itself is outside the model.
\<close>

subsection \<open>The employee document (server/models/Employee.js)\<close>

type_synonym millis = int

datatype role = EMPLOYEE | ADMIN | SUPERVISOR

record employee =
  e_id :: string
  employeeId :: string
  fullName :: string
  username :: string
  passwordHash :: string
  salt :: string
  role :: role
  department :: string
  isActive :: bool
  lastLoginAt :: "millis option"
  failedLoginAttempts :: int
  lockedUntil :: "millis option"
  email :: string
  verificationLimit :: rat
  updatedAt :: millis

subsection \<open>The transaction document\<close>

datatype status = PENDING | VERIFIED | PROCESSING | COMPLETED | REJECTED | CANCELLED

record transaction =
  t_id :: string
  amount :: rat
  currency :: string
  swiftCode :: string
  status :: status
  verifiedAt :: "millis option"
  rejectionReason :: "string option"

subsection \<open>The world a request runs in\<close>

datatype call =
    EmployeeFindOne string string
  | EmployeeFindById string
  | EmployeeSave string
  | Argon2Verify string
  | TransactionFindById string
  | TransactionFind "string list"
  | TransactionSave string

datatype audit_event =
    AuthenticationEvent string bool string
  | PaymentEvent string string string

record world =
  employees :: "employee list"
  transactions :: "transaction list"
  calls :: "call list"
  audit :: "audit_event list"

definition called :: "call \<Rightarrow> world \<Rightarrow> world" where
  "called c w = w\<lparr>calls := calls w @ [c]\<rparr>"

definition logAuthenticationEvent :: "string \<Rightarrow> bool \<Rightarrow> string \<Rightarrow> world \<Rightarrow> world" where
  "logAuthenticationEvent ev ok detail w = w\<lparr>audit := audit w @ [AuthenticationEvent ev ok detail]\<rparr>"

definition logPaymentEvent :: "string \<Rightarrow> string \<Rightarrow> string \<Rightarrow> world \<Rightarrow> world" where
  "logPaymentEvent ev tid eid w = w\<lparr>audit := audit w @ [PaymentEvent ev tid eid]\<rparr>"

subsection \<open>Tokens (jsonwebtoken)\<close>

record claims =
  c_employeeId :: string
  c_iat :: int
  c_type :: string
  c_exp :: int
  c_iss :: string
  c_aud :: string

datatype token = Signed claims string | Malformed string

record env =
  JWT_SECRET :: string
  JWT_EXPIRES_IN :: "int option"
  JWT_REFRESH_EXPIRES_IN :: "int option"

text \<open>\<^verbatim>\<open>jwt.sign(payload, secret, {expiresIn, issuer, audience})\<close>: the expiry is
  the issue time plus the lifetime, both in seconds.\<close>

definition jwt_sign :: "string \<Rightarrow> int \<Rightarrow> string \<Rightarrow> string \<Rightarrow> int \<Rightarrow> token" where
  "jwt_sign eid iat ty secret expiresIn =
     Signed \<lparr>c_employeeId = eid, c_iat = iat, c_type = ty, c_exp = iat + expiresIn,
             c_iss = ''secure-payments-portal'', c_aud = ''banking-employees''\<rparr> secret"

text \<open>\<^verbatim>\<open>jwt.verify(token, secret)\<close> with no options: the signature and the expiry
  are checked, the issuer and the audience are not. \<open>None\<close> is a missing token;
  \<open>Malformed s\<close> is a string \<open>s\<close> that is no token: the library reports
  \<^verbatim>\<open>jwt malformed\<close> unless \<open>s\<close> has three segments, and \<^verbatim>\<open>invalid token\<close>
  for three segments that do not decode.\<close>

fun jwt_verify :: "token option \<Rightarrow> string \<Rightarrow> millis \<Rightarrow> string + claims" where
  "jwt_verify None secret now = Inl ''jwt must be provided''"
| "jwt_verify (Some (Malformed s)) secret now =
     Inl (if count_list s (CHR ''.'') = 2 then ''invalid token'' else ''jwt malformed'')"
| "jwt_verify (Some (Signed c k)) secret now =
     (if k \<noteq> secret then Inl ''invalid signature''
      else if c_exp c \<le> now div 1000 then Inl ''jwt expired''
      else Inr c)"

definition generateEmployeeToken :: "env \<Rightarrow> millis \<Rightarrow> string \<Rightarrow> token" where
  "generateEmployeeToken ev now eid =
     jwt_sign eid (now div 1000) ''employee_access'' (JWT_SECRET ev)
       (case JWT_EXPIRES_IN ev of None \<Rightarrow> 24 * 60 * 60 | Some s \<Rightarrow> s)"

definition generateEmployeeRefreshToken :: "env \<Rightarrow> millis \<Rightarrow> string \<Rightarrow> token" where
  "generateEmployeeRefreshToken ev now eid =
     jwt_sign eid (now div 1000) ''employee_refresh'' (JWT_SECRET ev)
       (case JWT_REFRESH_EXPIRES_IN ev of None \<Rightarrow> 7 * 24 * 60 * 60 | Some s \<Rightarrow> s)"

subsection \<open>HTTP responses\<close>

text \<open>An error body is a fixed text or one of the two template literals of the routes.\<close>

datatype message = Text string | ExceedsLimit rat | BadTransactionId string

record profile =
  p_id :: string
  p_employeeId :: string
  p_fullName :: string
  p_username :: string
  p_email :: string
  p_role :: role
  p_department :: string
  p_lastLoginAt :: "millis option"

record submitted =
  s_id :: string
  s_amount :: rat
  s_currency :: string
  s_swiftCode :: string

datatype response =
    Failure nat message
  | LoginOk profile token token
  | RefreshOk token token
  | VerifyOk string string status "millis option" "string option"
  | SubmitOk "submitted list" nat

subsection \<open>Methods of the employee model\<close>

definition isAccountLocked :: "employee \<Rightarrow> millis \<Rightarrow> bool" where
  "isAccountLocked e now = (case lockedUntil e of None \<Rightarrow> False | Some t \<Rightarrow> now < t)"

text \<open>\<^verbatim>\<open>save()\<close>: the pre-save hook stamps \<^verbatim>\<open>updatedAt\<close>; the password is
  hashed again only when \<^verbatim>\<open>passwordHash\<close> was modified, which no path below does.
  The stored document with the same \<^verbatim>\<open>_id\<close> is replaced.\<close>

definition save :: "millis \<Rightarrow> employee \<Rightarrow> world \<Rightarrow> employee \<times> world" where
  "save now e w =
     (let e' = e\<lparr>updatedAt := now\<rparr> in
      (e', called (EmployeeSave (e_id e))
             (w\<lparr>employees := map (\<lambda>x. if e_id x = e_id e then e' else x) (employees w)\<rparr>)))"

type_synonym hasher = "string \<Rightarrow> string \<Rightarrow> bool option"

text \<open>\<^verbatim>\<open>validatePassword\<close>: \<open>None\<close> from the hasher is \<^verbatim>\<open>argon2.verify\<close>
  throwing, rethrown as \<^verbatim>\<open>Password validation failed\<close>.\<close>

definition validatePassword :: "hasher \<Rightarrow> employee \<Rightarrow> string \<Rightarrow> world \<Rightarrow> (string + bool) \<times> world" where
  "validatePassword h e password w =
     (case h (passwordHash e) (password @ salt e) of
        None \<Rightarrow> (Inl ''Password validation failed'', called (Argon2Verify (e_id e)) w)
      | Some b \<Rightarrow> (Inr b, called (Argon2Verify (e_id e)) w))"

definition maxAttempts :: int where
  "maxAttempts = 5"

definition lockTime :: millis where
  "lockTime = 15 * 60 * 1000"

text \<open>\<^verbatim>\<open>n + 1\<close> on an integer-valued Number \<open>n\<close>. Up to \<open>2 ^ 53\<close> in magnitude
  every integer is a Number and the sum is exact. From there to \<open>2 ^ 54\<close> the Numbers are
  the even integers, \<open>n + 1\<close> lies halfway between \<open>n\<close> and \<open>n + 2\<close>, and the tie goes
  to the one with the even significand, the multiple of 4. Beyond, \<open>n + 1\<close> rounds back to
  \<open>n\<close>.\<close>

definition js_add1 :: "int \<Rightarrow> int" where
  "js_add1 n =
     (if - (2 ^ 53) \<le> n \<and> n < 2 ^ 53 then n + 1
      else if \<bar>n\<bar> < 2 ^ 54 then (if n mod 4 = 0 then n else n + 2)
      else n)"

definition incrementFailedAttempts :: "millis \<Rightarrow> employee \<Rightarrow> world \<Rightarrow> employee \<times> world" where
  "incrementFailedAttempts now e w =
     (let e1 = (if js_add1 (failedLoginAttempts e) \<ge> maxAttempts \<and> \<not> isAccountLocked e now
                then e\<lparr>lockedUntil := Some (now + lockTime)\<rparr> else e);
          e2 = e1\<lparr>failedLoginAttempts := js_add1 (failedLoginAttempts e1)\<rparr>
      in save now e2 w)"

definition resetFailedAttempts :: "millis \<Rightarrow> employee \<Rightarrow> world \<Rightarrow> employee \<times> world" where
  "resetFailedAttempts now e w = save now (e\<lparr>failedLoginAttempts := 0, lockedUntil := None\<rparr>) w"

definition updateLastLogin :: "millis \<Rightarrow> employee \<Rightarrow> world \<Rightarrow> employee \<times> world" where
  "updateLastLogin now e w = save now (e\<lparr>lastLoginAt := Some now\<rparr>) w"

definition AccountLockedMessage :: string where
  "AccountLockedMessage = ''Account is temporarily locked due to too many failed attempts''"

definition findByCredentials :: "string \<Rightarrow> string \<Rightarrow> millis \<Rightarrow> world \<Rightarrow> (string + employee) \<times> world" where
  "findByCredentials uname empId now w =
     (let w1 = called (EmployeeFindOne uname empId) w in
      case find (\<lambda>e. username e = uname \<and> employeeId e = empId \<and> isActive e) (employees w) of
        None \<Rightarrow> (Inl ''Invalid credentials'', w1)
      | Some e \<Rightarrow>
          if isAccountLocked e now then (Inl AccountLockedMessage, w1) else (Inr e, w1))"

text \<open>\<^verbatim>\<open>Employee.findById(id)\<close>: Mongoose casts the string to an ObjectId before it
  queries. A string of 24 hexadecimal digits is cast, read without regard to case (a stored
  \<^verbatim>\<open>_id\<close> prints in lower case); any other string makes the query throw a
  \<^verbatim>\<open>CastError\<close>.\<close>

definition hex_lower :: "char \<Rightarrow> char" where
  "hex_lower c =
     (if c = CHR ''A'' then CHR ''a'' else if c = CHR ''B'' then CHR ''b''
      else if c = CHR ''C'' then CHR ''c'' else if c = CHR ''D'' then CHR ''d''
      else if c = CHR ''E'' then CHR ''e'' else if c = CHR ''F'' then CHR ''f'' else c)"

definition ObjectId :: "string \<Rightarrow> string" where
  "ObjectId s = map hex_lower s"

definition castObjectId :: "string \<Rightarrow> string option" where
  "castObjectId s =
     (if length s = 24 \<and> list_all (\<lambda>c. c \<in> set ''0123456789abcdefABCDEF'') s
      then Some (ObjectId s) else None)"

definition CastErrorMessage :: string where
  "CastErrorMessage = ''Cast to ObjectId failed''"

definition findById :: "string \<Rightarrow> world \<Rightarrow> (string + employee option) \<times> world" where
  "findById i w =
     (case castObjectId i of
        None \<Rightarrow> (Inl CastErrorMessage, called (EmployeeFindById i) w)
      | Some oid \<Rightarrow> (Inr (find (\<lambda>e. e_id e = oid) (employees w)), called (EmployeeFindById i) w))"

subsection \<open>Input patterns\<close>

definition upper_chars :: string where
  "upper_chars = ''ABCDEFGHIJKLMNOPQRSTUVWXYZ''"

definition lower_chars :: string where
  "lower_chars = ''abcdefghijklmnopqrstuvwxyz''"

definition digit_chars :: string where
  "digit_chars = ''0123456789''"

text \<open>Modelled from the spec: \<^verbatim>\<open>inputValidation.patterns.username\<close> lives in
  \<^verbatim>\<open>server/middleware/inputValidation.js\<close>, which is not among the sources. The spec
  gives the pattern as \<^verbatim>\<open>[A-Za-z0-9_-]{3,30}\<close>; the schema of the employee model
  and the login form use the same expression, \<^verbatim>\<open>/^[a-zA-Z0-9_-]{3,30}$/\<close>.\<close>

definition patterns_username :: "string \<Rightarrow> bool" where
  "patterns_username s =
     (3 \<le> length s \<and> length s \<le> 30 \<and>
      list_all (\<lambda>c. c \<in> set (lower_chars @ upper_chars @ digit_chars @ ''_-'')) s)"

text \<open>\<^verbatim>\<open>/^[A-Z0-9]{6,10}$/\<close>, written out in the login route.\<close>

definition employeeId_pattern :: "string \<Rightarrow> bool" where
  "employeeId_pattern s =
     (6 \<le> length s \<and> length s \<le> 10 \<and>
      list_all (\<lambda>c. c \<in> set (upper_chars @ digit_chars)) s)"

text \<open>\<^verbatim>\<open>/^[0-9a-fA-F]{24}$/\<close>, the ObjectId check of the transaction routes.\<close>

definition objectId_pattern :: "string \<Rightarrow> bool" where
  "objectId_pattern s =
     (length s = 24 \<and> list_all (\<lambda>c. c \<in> set (digit_chars @ ''abcdefABCDEF'')) s)"

text \<open>A body field is a string or absent; \<^verbatim>\<open>!v\<close> holds for an absent field and for
  the empty string. \<open>passes p v\<close> is \<^verbatim>\<open>v && p.test(v)\<close>.\<close>

fun truthy :: "string option \<Rightarrow> bool" where
  "truthy None = False"
| "truthy (Some s) = (s \<noteq> [])"

fun passes :: "(string \<Rightarrow> bool) \<Rightarrow> string option \<Rightarrow> bool" where
  "passes p None = False"
| "passes p (Some s) = (s \<noteq> [] \<and> p s)"

subsection \<open>POST /login\<close>

definition toProfile :: "employee \<Rightarrow> profile" where
  "toProfile e =
     \<lparr>p_id = e_id e, p_employeeId = employeeId e, p_fullName = fullName e,
      p_username = username e, p_email = email e, p_role = role e,
      p_department = department e, p_lastLoginAt = lastLoginAt e\<rparr>"

definition login_caught :: "string \<Rightarrow> world \<Rightarrow> response \<times> world" where
  "login_caught reason w =
     (Failure 401 (Text ''Invalid credentials''),
      logAuthenticationEvent ''EMPLOYEE_LOGIN_FAILED'' False reason w)"

text \<open>The body of the \<^verbatim>\<open>try\<close> block, entered once the three input checks have
  passed; \<open>login_caught\<close> is the \<^verbatim>\<open>catch\<close> block. The detail of the success
  event is \<^verbatim>\<open>employee.employeeId\<close>: the object literal gives the key
  \<^verbatim>\<open>employeeId\<close> twice and the later value stands.\<close>

definition login_try ::
  "hasher \<Rightarrow> env \<Rightarrow> millis \<Rightarrow> string \<Rightarrow> string \<Rightarrow> string \<Rightarrow> world \<Rightarrow> response \<times> world" where
  "login_try h ev now uname empId password w =
     (case findByCredentials uname empId now w of
        (Inl err, w1) \<Rightarrow> login_caught err w1
      | (Inr e, w1) \<Rightarrow>
          (case validatePassword h e password w1 of
             (Inl err, w2) \<Rightarrow> login_caught err w2
           | (Inr False, w2) \<Rightarrow>
               (let (e3, w3) = incrementFailedAttempts now e w2 in
                (Failure 401 (Text ''Invalid credentials''),
                 logAuthenticationEvent ''EMPLOYEE_LOGIN_FAILED'' False ''Invalid password'' w3))
           | (Inr True, w2) \<Rightarrow>
               (let (e3, w3) = resetFailedAttempts now e w2;
                    (e4, w4) = updateLastLogin now e3 w3;
                    tok = generateEmployeeToken ev now (e_id e4);
                    refreshToken = generateEmployeeRefreshToken ev now (e_id e4)
                in (LoginOk (toProfile e4) tok refreshToken,
                    logAuthenticationEvent ''EMPLOYEE_LOGIN_SUCCESS'' True (employeeId e4) w4))))"

definition login ::
  "hasher \<Rightarrow> env \<Rightarrow> millis \<Rightarrow> string option \<Rightarrow> string option \<Rightarrow> string option \<Rightarrow> world
     \<Rightarrow> response \<times> world" where
  "login h ev now uname empId password w =
     (if \<not> passes patterns_username uname then
        (Failure 400 (Text ''Invalid username format''), w)
      else if \<not> passes employeeId_pattern empId then
        (Failure 400 (Text ''Invalid employee ID format''), w)
      else if \<not> truthy password then
        (Failure 400 (Text ''Password is required''), w)
      else login_try h ev now (the uname) (the empId) (the password) w)"

subsection \<open>POST /refresh\<close>

text \<open>\<open>refresh_caught\<close> is the \<^verbatim>\<open>catch\<close> block: it answers what
  \<^verbatim>\<open>jwt.verify\<close> throws and what \<^verbatim>\<open>Employee.findById\<close> throws.\<close>

definition refresh_caught :: "string \<Rightarrow> world \<Rightarrow> response \<times> world" where
  "refresh_caught reason w =
     (Failure 401 (Text ''Invalid refresh token''),
      logAuthenticationEvent ''EMPLOYEE_TOKEN_REFRESH_FAILED'' False reason w)"

definition refresh :: "env \<Rightarrow> millis \<Rightarrow> token option \<Rightarrow> world \<Rightarrow> response \<times> world" where
  "refresh ev now refreshToken w =
     (case jwt_verify refreshToken (JWT_SECRET ev) now of
        Inl err \<Rightarrow> refresh_caught err w
      | Inr decoded \<Rightarrow>
          if c_type decoded \<noteq> ''employee_refresh'' then
            (Failure 401 (Text ''Invalid token type''), w)
          else
            (case findById (c_employeeId decoded) w of
               (Inl err, w1) \<Rightarrow> refresh_caught err w1
             | (Inr None, w1) \<Rightarrow> (Failure 401 (Text ''Employee not found or inactive''), w1)
             | (Inr (Some e), w1) \<Rightarrow>
                 if \<not> isActive e then
                   (Failure 401 (Text ''Employee not found or inactive''), w1)
                 else
                   (RefreshOk (generateEmployeeToken ev now (e_id e))
                              (generateEmployeeRefreshToken ev now (e_id e)),
                    logAuthenticationEvent ''EMPLOYEE_TOKEN_REFRESH'' True (e_id e) w1)))"

subsection \<open>The token check of the protected routes\<close>

datatype token_type = AccessToken | RefreshToken

datatype token_error = TokenExpired | TokenTypeMismatch | SignatureInvalid | IssuerAudienceMismatch

definition type_claim :: "token_type \<Rightarrow> string" where
  "type_claim ty = (case ty of AccessToken \<Rightarrow> ''employee_access'' | RefreshToken \<Rightarrow> ''employee_refresh'')"

text \<open>Modelled from the spec: \<^verbatim>\<open>employeeAuth\<close> lives in
  \<^verbatim>\<open>server/middleware/auth.js\<close>, which is not among the sources. The spec (4.2, 4.4)
  gives its token check as \<^verbatim>\<open>validate(token, expectedType) -> identity | error\<close>,
  failing with \<^verbatim>\<open>TokenExpired\<close>, \<^verbatim>\<open>TokenTypeMismatch\<close>,
  \<^verbatim>\<open>SignatureInvalid\<close> or \<^verbatim>\<open>IssuerAudienceMismatch\<close>; claims carry a fixed
  issuer and audience pair that validation checks exactly; an unexpired access token used where
  the refresh type is required gives \<^verbatim>\<open>TokenTypeMismatch\<close>.\<close>

fun validate :: "env \<Rightarrow> millis \<Rightarrow> token \<Rightarrow> token_type \<Rightarrow> token_error + string" where
  "validate ev now (Malformed s) expected = Inl SignatureInvalid"
| "validate ev now (Signed c k) expected =
     (if k \<noteq> JWT_SECRET ev then Inl SignatureInvalid
      else if c_iss c \<noteq> ''secure-payments-portal'' \<or> c_aud c \<noteq> ''banking-employees'' then
        Inl IssuerAudienceMismatch
      else if c_exp c \<le> now div 1000 then Inl TokenExpired
      else if c_type c \<noteq> type_claim expected then Inl TokenTypeMismatch
      else Inr (c_employeeId c))"

subsection \<open>The Number of a decimal\<close>

text \<open>An amount and a limit reach the route as Numbers: the decimal literal of a request
  body (\<^verbatim>\<open>JSON.parse\<close>) or of a stored document is rounded to the nearest binary64
  value, a tie going to the even significand. \<open>floor_log2 x\<close> is the exponent of the
  power of two at or below a positive \<open>x\<close>; a binary64 value near \<open>x\<close> is a multiple
  of \<open>2 powi (floor_log2 x - 52)\<close>, and of \<open>2 powi (- 1074)\<close> in the subnormal range.
  \<open>nearest64\<close> rounds a magnitude, \<open>toNumber\<close> a signed decimal; \<open>None\<close> is the
  overflow to \<^verbatim>\<open>Infinity\<close>. A zero is modelled without its sign.\<close>

definition floor_log2 :: "rat \<Rightarrow> int" where
  "floor_log2 x = (if 1 \<le> x then bitlen \<lfloor>x\<rfloor> - 1 else - bitlen (\<lceil>1 / x\<rceil> - 1))"

definition round_half_even :: "rat \<Rightarrow> int" where
  "round_half_even y =
     (let f = \<lfloor>y\<rfloor>; r = y - of_int f in
      if r < 1 / 2 then f else if 1 / 2 < r then f + 1 else if even f then f else f + 1)"

definition nearest64 :: "rat \<Rightarrow> rat" where
  "nearest64 a =
     (let e = max (floor_log2 a - 52) (- 1074)
      in of_int (round_half_even (a / 2 powi e)) * 2 powi e)"

definition toNumber :: "rat \<Rightarrow> rat option" where
  "toNumber x =
     (if x = 0 then Some 0
      else if 2 ^ 1024 \<le> nearest64 \<bar>x\<bar> then None
      else Some (sgn x * nearest64 \<bar>x\<bar>))"

subsection \<open>The transaction model\<close>

text \<open>The transaction routes test the id against \<^verbatim>\<open>/^[0-9a-fA-F]{24}$/\<close> before they
  query, so the cast of \<^verbatim>\<open>Transaction.findById\<close> and of the \<^verbatim>\<open>$in\<close> query
  succeeds and is \<open>ObjectId\<close>.\<close>

definition Transaction_findById :: "string \<Rightarrow> world \<Rightarrow> transaction option \<times> world" where
  "Transaction_findById i w =
     (find (\<lambda>t. t_id t = ObjectId i) (transactions w), called (TransactionFindById i) w)"

text \<open>\<^verbatim>\<open>Transaction.find({_id: {$in: transactionIds}, status: 'VERIFIED'})\<close>: every
  stored document whose id is one of the ids and whose status is VERIFIED, each once.\<close>

definition Transaction_find_verified :: "string list \<Rightarrow> world \<Rightarrow> transaction list \<times> world" where
  "Transaction_find_verified ids w =
     (filter (\<lambda>t. t_id t \<in> set (map ObjectId ids) \<and> status t = VERIFIED) (transactions w),
      called (TransactionFind ids) w)"

text \<open>An id of a request resolves to a transaction in state \<open>st\<close> when the lookup by that
  id finds a document and its status is \<open>st\<close>.\<close>

definition resolves_to :: "status \<Rightarrow> world \<Rightarrow> string \<Rightarrow> bool" where
  "resolves_to st w i =
     (case find (\<lambda>t. t_id t = ObjectId i) (transactions w) of
        None \<Rightarrow> False | Some t \<Rightarrow> status t = st)"

definition save_transaction :: "transaction \<Rightarrow> world \<Rightarrow> transaction \<times> world" where
  "save_transaction t w =
     (t, called (TransactionSave (t_id t))
           (w\<lparr>transactions := map (\<lambda>x. if t_id x = t_id t then t else x) (transactions w)\<rparr>))"

text \<open>Modelled from the spec: the methods \<^verbatim>\<open>markAsVerified\<close>,
  \<^verbatim>\<open>markAsRejected\<close> and \<^verbatim>\<open>markAsProcessing\<close> belong to
  \<^verbatim>\<open>server/models/Transaction.js\<close>, which is not among the sources. The spec (4.5):
  on approve, transition to VERIFIED and stamp \<^verbatim>\<open>verifiedAt\<close>; on reject, transition
  to REJECTED and stamp \<^verbatim>\<open>rejectionReason\<close>; on submission, transition VERIFIED to
  PROCESSING. Each saves the document.\<close>

definition markAsVerified :: "millis \<Rightarrow> transaction \<Rightarrow> world \<Rightarrow> transaction \<times> world" where
  "markAsVerified now t w = save_transaction (t\<lparr>status := VERIFIED, verifiedAt := Some now\<rparr>) w"

definition markAsRejected :: "string \<Rightarrow> transaction \<Rightarrow> world \<Rightarrow> transaction \<times> world" where
  "markAsRejected reason t w =
     save_transaction (t\<lparr>status := REJECTED, rejectionReason := Some reason\<rparr>) w"

definition markAsProcessing :: "transaction \<Rightarrow> world \<Rightarrow> transaction \<times> world" where
  "markAsProcessing t w = save_transaction (t\<lparr>status := PROCESSING\<rparr>) w"

subsection \<open>POST /transactions/:id/verify\<close>

text \<open>\<open>emp\<close> is \<^verbatim>\<open>req.employee\<close>, the employee the middleware attached to the
  request; \<open>verified\<close> is \<open>None\<close> when the body's flag is absent or not a boolean;
  \<^verbatim>\<open>notes || 'Rejected by employee'\<close> takes the default for absent and for empty
  notes.\<close>

fun notes_too_long :: "string option \<Rightarrow> bool" where
  "notes_too_long None = False"
| "notes_too_long (Some n) = (n \<noteq> [] \<and> length n > 500)"

fun notesOrDefault :: "string option \<Rightarrow> string" where
  "notesOrDefault None = ''Rejected by employee''"
| "notesOrDefault (Some n) = (if n \<noteq> [] then n else ''Rejected by employee'')"

definition verify ::
  "millis \<Rightarrow> employee \<Rightarrow> string \<Rightarrow> bool option \<Rightarrow> string option \<Rightarrow> world \<Rightarrow> response \<times> world" where
  "verify now emp i verified notes w =
     (if \<not> objectId_pattern i then
        (Failure 400 (Text ''Invalid transaction ID format''), w)
      else if verified = None then
        (Failure 400 (Text ''Verified flag must be a boolean''), w)
      else if notes_too_long notes then
        (Failure 400 (Text ''Notes must be a string with max 500 characters''), w)
      else
        (case Transaction_findById i w of
           (None, w1) \<Rightarrow> (Failure 404 (Text ''Transaction not found''), w1)
         | (Some t, w1) \<Rightarrow>
             if status t \<noteq> PENDING then
               (Failure 400 (Text ''Transaction is not in PENDING status''), w1)
             else if verified = Some True \<and> amount t > verificationLimit emp
                     \<and> role emp \<noteq> ADMIN \<and> role emp \<noteq> SUPERVISOR then
               (Failure 403 (ExceedsLimit (verificationLimit emp)), w1)
             else if verified = Some True then
               (let (t', w2) = markAsVerified now t w1 in
                (VerifyOk ''Transaction verified successfully''
                   (t_id t') (status t') (verifiedAt t') (rejectionReason t'),
                 logPaymentEvent ''TRANSACTION_VERIFIED'' (t_id t') (e_id emp) w2))
             else
               (let (t', w2) = markAsRejected (notesOrDefault notes) t w1 in
                (VerifyOk ''Transaction rejected''
                   (t_id t') (status t') (verifiedAt t') (rejectionReason t'),
                 logPaymentEvent ''TRANSACTION_REJECTED'' (t_id t') (e_id emp) w2))))"

subsection \<open>POST /transactions/submit-to-swift\<close>

definition toSubmitted :: "transaction \<Rightarrow> submitted" where
  "toSubmitted t =
     \<lparr>s_id = t_id t, s_amount = amount t, s_currency = currency t, s_swiftCode = swiftCode t\<rparr>"

text \<open>The loop over the documents found: each is marked, pushed on the list of the
  response and reported to the audit log.\<close>

fun submit_each ::
  "employee \<Rightarrow> transaction list \<Rightarrow> submitted list \<Rightarrow> world \<Rightarrow> submitted list \<times> world" where
  "submit_each emp [] submittedTransactions w = (submittedTransactions, w)"
| "submit_each emp (t # ts) submittedTransactions w =
     (let (t', w1) = markAsProcessing t w in
      submit_each emp ts (submittedTransactions @ [toSubmitted t'])
        (logPaymentEvent ''TRANSACTION_SUBMITTED_TO_SWIFT'' (t_id t') (e_id emp) w1))"

text \<open>\<open>transactionIds\<close> is \<open>None\<close> when the body's field is absent or not an array.\<close>

definition submitToSwift :: "employee \<Rightarrow> string list option \<Rightarrow> world \<Rightarrow> response \<times> world" where
  "submitToSwift emp transactionIds w =
     (case transactionIds of
        None \<Rightarrow> (Failure 400 (Text ''Transaction IDs array is required''), w)
      | Some ids \<Rightarrow>
          if length ids = 0 then
            (Failure 400 (Text ''Transaction IDs array is required''), w)
          else if length ids > 50 then
            (Failure 400 (Text ''Maximum 50 transactions can be submitted at once''), w)
          else
            (case find (\<lambda>i. \<not> objectId_pattern i) ids of
               Some bad \<Rightarrow> (Failure 400 (BadTransactionId bad), w)
             | None \<Rightarrow>
                 (case Transaction_find_verified ids w of
                    (found, w1) \<Rightarrow>
                      if length found = 0 then
                        (Failure 404 (Text ''No verified transactions found''), w1)
                      else if length found \<noteq> length ids then
                        (Failure 400
                           (Text ''Some transactions are not in VERIFIED status or do not exist''),
                         w1)
                      else
                        (let (submittedTransactions, w2) = submit_each emp found [] w1 in
                         (SubmitOk submittedTransactions (length submittedTransactions), w2)))))"

section \<open>Fixtures\<close>

text \<open>The demo employee of \<^verbatim>\<open>scripts/create-demo-employee.js\<close>, four failed
  attempts into the lockout window, and a stand-in for the password hasher.\<close>

definition demo_employee :: employee where
  "demo_employee =
     \<lparr>e_id = ''64b7f0c2a1d3e4f5a6b7c8d9'', employeeId = ''EMP001'', fullName = ''John Smith'',
      username = ''jsmith'', passwordHash = ''argon2id$Demo123!@#5a17'', salt = ''5a17'',
      role = EMPLOYEE, department = ''International Payments'', isActive = True,
      lastLoginAt = None, failedLoginAttempts = 4, lockedUntil = None,
      email = ''john.smith@bank.com'', verificationLimit = 100000, updatedAt = 0\<rparr>"

definition demo_hasher :: hasher where
  "demo_hasher hash salted = Some (hash = ''argon2id$'' @ salted)"

definition demo_env :: env where
  "demo_env = \<lparr>JWT_SECRET = ''secret'', JWT_EXPIRES_IN = None, JWT_REFRESH_EXPIRES_IN = None\<rparr>"

definition demo_world :: world where
  "demo_world = \<lparr>employees = [demo_employee], transactions = [], calls = [], audit = []\<rparr>"

definition locked_employee :: employee where
  "locked_employee = demo_employee\<lparr>failedLoginAttempts := 5, lockedUntil := Some 901000\<rparr>"

definition locked_world :: world where
  "locked_world = demo_world\<lparr>employees := [locked_employee]\<rparr>"

text \<open>Two pending payments, one above and one below the demo employee's limit of
  100000, and a supervisor.\<close>

definition large_txn :: transaction where
  "large_txn =
     \<lparr>t_id = ''507f1f77bcf86cd799439011'', amount = 150000, currency = ''USD'',
      swiftCode = ''DEUTDEFF'', status = PENDING, verifiedAt = None, rejectionReason = None\<rparr>"

definition small_txn :: transaction where
  "small_txn =
     \<lparr>t_id = ''507f1f77bcf86cd799439012'', amount = 99999.99, currency = ''USD'',
      swiftCode = ''DEUTDEFF'', status = PENDING, verifiedAt = None, rejectionReason = None\<rparr>"

definition payments_world :: world where
  "payments_world = demo_world\<lparr>transactions := [large_txn, small_txn]\<rparr>"

text \<open>A pending payment submitted as 100000.000000000001, stored as the Number
  100000.\<close>

definition rounded_txn :: transaction where
  "rounded_txn =
     \<lparr>t_id = ''507f1f77bcf86cd799439016'', amount = 100000, currency = ''USD'',
      swiftCode = ''DEUTDEFF'', status = PENDING, verifiedAt = None, rejectionReason = None\<rparr>"

definition rounding_world :: world where
  "rounding_world = demo_world\<lparr>transactions := [rounded_txn, large_txn]\<rparr>"

definition demo_supervisor :: employee where
  "demo_supervisor =
     demo_employee\<lparr>e_id := ''64b7f0c2a1d3e4f5a6b7c8da'', employeeId := ''SUP001'',
       username := ''asupervisor'', role := SUPERVISOR\<rparr>"

text \<open>Three verified payments beside the large pending one.\<close>

definition verified_a :: transaction where
  "verified_a =
     \<lparr>t_id = ''507f1f77bcf86cd79943901a'', amount = 500, currency = ''USD'',
      swiftCode = ''DEUTDEFF'', status = VERIFIED, verifiedAt = Some 1500, rejectionReason = None\<rparr>"

definition verified_b :: transaction where
  "verified_b = verified_a\<lparr>t_id := ''507f1f77bcf86cd79943901b'', amount := 1250.50\<rparr>"

definition verified_c :: transaction where
  "verified_c = verified_a\<lparr>t_id := ''507f1f77bcf86cd79943901c'', amount := 75000\<rparr>"

definition batch_world :: world where
  "batch_world = demo_world\<lparr>transactions := [verified_a, verified_b, verified_c, large_txn]\<rparr>"

text \<open>The demo employee deactivated, and the two tokens a login at 1000 gives them.\<close>

definition inactive_world :: world where
  "inactive_world = demo_world\<lparr>employees := [demo_employee\<lparr>isActive := False\<rparr>]\<rparr>"

definition demo_access_token :: token where
  "demo_access_token = generateEmployeeToken demo_env 1000 ''64b7f0c2a1d3e4f5a6b7c8d9''"

definition demo_refresh_token :: token where
  "demo_refresh_token = generateEmployeeRefreshToken demo_env 1000 ''64b7f0c2a1d3e4f5a6b7c8d9''"

text \<open>A refresh token signed with the same secret whose subject is not an ObjectId, and
  the demo employee's refresh token with the id in upper case.\<close>

definition stray_refresh_token :: token where
  "stray_refresh_token = generateEmployeeRefreshToken demo_env 1000 ''EMP001''"

definition upper_refresh_token :: token where
  "upper_refresh_token = generateEmployeeRefreshToken demo_env 1000 ''64B7F0C2A1D3E4F5A6B7C8D9''"

section \<open>Properties\<close>

lemmas demo_defs = demo_employee_def demo_hasher_def demo_env_def demo_world_def locked_world_def
  locked_employee_def
  patterns_username_def employeeId_pattern_def lower_chars_def upper_chars_def digit_chars_def

lemmas batch_defs = verified_a_def verified_b_def verified_c_def batch_world_def large_txn_def
  demo_world_def ObjectId_def hex_lower_def

lemmas token_defs = demo_access_token_def demo_refresh_token_def generateEmployeeToken_def
  generateEmployeeRefreshToken_def jwt_sign_def demo_env_def

lemmas txn_defs = large_txn_def small_txn_def payments_world_def demo_world_def
  ObjectId_def hex_lower_def

subsection \<open>Replacing a document keeps it findable by its key\<close>

lemma find_replace_aux:
  "\<exists>x \<in> set xs. key x = k \<Longrightarrow> key b = k \<Longrightarrow>
     find (\<lambda>x. key x = k) (map (\<lambda>x. if key x = k then b else x) xs) = Some b"
  by (induction xs) auto

lemma find_replace_same_key:
  assumes "find (\<lambda>x. key x = k) xs = Some a" and "key b = k"
  shows "find (\<lambda>x. key x = k) (map (\<lambda>x. if key x = key a then b else x) xs) = Some b"
proof -
  have ka: "key a = k" and "\<exists>x \<in> set xs. key x = k"
    using assms(1) by (auto simp: find_Some_iff)
  then show ?thesis using find_replace_aux [of xs key k b] assms(2) by simp
qed

subsection \<open>Login\<close>

lemma js_add1_exact: "\<bar>n\<bar> < 2 ^ 53 \<Longrightarrow> js_add1 n = n + 1"
  by (auto simp: js_add1_def)

lemma increment_fields:
  assumes "\<bar>failedLoginAttempts e\<bar> < 2 ^ 53"
  shows "fst (incrementFailedAttempts now e w) =
     e\<lparr>failedLoginAttempts := failedLoginAttempts e + 1,
       lockedUntil := (if 5 \<le> failedLoginAttempts e + 1 \<and> \<not> isAccountLocked e now
                       then Some (now + 15 * 60 * 1000) else lockedUntil e),
       updatedAt := now\<rparr>"
  by (simp add: incrementFailedAttempts_def save_def Let_def maxAttempts_def lockTime_def
        js_add1_exact [OF assms])

lemma increment_world:
  "snd (incrementFailedAttempts now e w) =
     called (EmployeeSave (e_id e))
       (w\<lparr>employees := map (\<lambda>x. if e_id x = e_id e
                                  then fst (incrementFailedAttempts now e w) else x) (employees w)\<rparr>)"
  unfolding incrementFailedAttempts_def save_def Let_def by (simp cong: if_cong)

text \<open>
  \<^bold>\<open>C9.\<close> A login request whose username is absent, empty or does not match
  \<^verbatim>\<open>[A-Za-z0-9_-]{3,30}\<close>, or whose employee id is absent, empty or does not match
  \<^verbatim>\<open>[A-Z0-9]{6,10}\<close>, or whose password is absent or empty, is answered with status 400
  and one of the three input messages, and the world is returned as it was: no call to
  the employee store or to the hasher is logged, no document is changed, no audit event
  is written.
\<close>

theorem login_malformed_input_fails_fast:
  assumes "\<not> passes patterns_username uname \<or> \<not> passes employeeId_pattern empId
             \<or> \<not> truthy password"
  shows "\<exists>msg \<in> {''Invalid username format'', ''Invalid employee ID format'',
                   ''Password is required''}.
           login h ev now uname empId password w = (Failure 400 (Text msg), w)"
  using assms by (auto simp: login_def)

theorem login_malformed_input_witness:
  "\<not> passes patterns_username (Some ''js'') \<and>
   (\<exists>msg \<in> {''Invalid username format'', ''Invalid employee ID format'', ''Password is required''}.
      login demo_hasher demo_env 1000 (Some ''js'') (Some ''EMP001'') (Some ''Demo123!@#'') demo_world
        = (Failure 400 (Text msg), demo_world))"
proof -
  have h: "\<not> passes patterns_username (Some ''js'')" by (simp add: patterns_username_def)
  then have "\<not> passes patterns_username (Some ''js'') \<or> \<not> passes employeeId_pattern (Some ''EMP001'')
              \<or> \<not> truthy (Some ''Demo123!@#'')" by simp
  from login_malformed_input_fails_fast [OF this] h show ?thesis by blast
qed

text \<open>
  \<^bold>\<open>C1.\<close> A login with well-formed input, for an active employee found by the
  credentials and not locked, whose counter of failed attempts is below \<open>2 ^ 53\<close> in
  magnitude (where \<^verbatim>\<open>+= 1\<close> on a Number is exact; a counter that starts at 0 and
  is only incremented and reset stays there), and whose password the hasher rejects: the
  answer is 401
  \<^verbatim>\<open>Invalid credentials\<close>; the stored document of that employee is replaced by one whose
  \<^verbatim>\<open>failedLoginAttempts\<close> is one more; its \<^verbatim>\<open>lockedUntil\<close> is now plus fifteen
  minutes when the new count is 5 or more, and is left alone otherwise; apart from the
  time stamp of the save no other field changes. (The lookup has already refused a locked
  account, so the guard \<^verbatim>\<open>!this.isAccountLocked\<close> of
  \<^verbatim>\<open>incrementFailedAttempts\<close> holds on this path. A hasher that throws is a
  malfunction, not a rejected password: the catch block answers it and nothing is counted.)
\<close>

theorem login_wrong_password_counts_and_locks:
  assumes "passes patterns_username (Some u)" and "passes employeeId_pattern (Some i)"
    and "pw \<noteq> []"
    and "find (\<lambda>e. username e = u \<and> employeeId e = i \<and> isActive e) (employees w) = Some e"
    and "\<not> isAccountLocked e now"
    and "h (passwordHash e) (pw @ salt e) = Some False"
    and "\<bar>failedLoginAttempts e\<bar> < 2 ^ 53"
  shows "\<exists>e' w'. login h ev now (Some u) (Some i) (Some pw) w
                    = (Failure 401 (Text ''Invalid credentials''), w')
      \<and> employees w' = map (\<lambda>x. if e_id x = e_id e then e' else x) (employees w)
      \<and> failedLoginAttempts e' = failedLoginAttempts e + 1
      \<and> lockedUntil e' = (if 5 \<le> failedLoginAttempts e + 1 then Some (now + 15 * 60 * 1000)
                          else lockedUntil e)
      \<and> e'\<lparr>failedLoginAttempts := failedLoginAttempts e, lockedUntil := lockedUntil e,
            updatedAt := updatedAt e\<rparr> = e"
proof -
  let ?w2 = "called (Argon2Verify (e_id e)) (called (EmployeeFindOne u i) w)"
  let ?e' = "fst (incrementFailedAttempts now e ?w2)"
  let ?w' = "snd (incrementFailedAttempts now e ?w2)"
  have f: "findByCredentials u i now w = (Inr e, called (EmployeeFindOne u i) w)"
    using assms(4,5) by (simp add: findByCredentials_def Let_def)
  have v: "validatePassword h e pw (called (EmployeeFindOne u i) w) = (Inr False, ?w2)"
    using assms(6) by (simp add: validatePassword_def)
  have l: "login h ev now (Some u) (Some i) (Some pw) w =
             (Failure 401 (Text ''Invalid credentials''),
              logAuthenticationEvent ''EMPLOYEE_LOGIN_FAILED'' False ''Invalid password'' ?w')"
    using assms(1-3) by (simp add: login_def login_try_def f v split_beta)
  have e1: "employees (logAuthenticationEvent ''EMPLOYEE_LOGIN_FAILED'' False ''Invalid password'' ?w')
              = map (\<lambda>x. if e_id x = e_id e then ?e' else x) (employees w)"
    by (simp add: increment_world logAuthenticationEvent_def called_def)
  note fields = increment_fields [OF assms(7)]
  have e2: "failedLoginAttempts ?e' = failedLoginAttempts e + 1"
    by (simp add: fields)
  have e3: "lockedUntil ?e' = (if 5 \<le> failedLoginAttempts e + 1 then Some (now + 15 * 60 * 1000)
                               else lockedUntil e)"
    using assms(5) by (simp add: fields)
  have e4: "?e'\<lparr>failedLoginAttempts := failedLoginAttempts e, lockedUntil := lockedUntil e,
               updatedAt := updatedAt e\<rparr> = e"
    by (simp add: fields)
  show ?thesis using l e1 e2 e3 e4 by blast
qed

theorem login_wrong_password_witness:
  "passes patterns_username (Some ''jsmith'') \<and> passes employeeId_pattern (Some ''EMP001'') \<and>
   find (\<lambda>e. username e = ''jsmith'' \<and> employeeId e = ''EMP001'' \<and> isActive e) (employees demo_world)
     = Some demo_employee \<and>
   \<not> isAccountLocked demo_employee 1000 \<and>
   demo_hasher (passwordHash demo_employee) (''letmein'' @ salt demo_employee) = Some False \<and>
   \<bar>failedLoginAttempts demo_employee\<bar> < 2 ^ 53 \<and>
   (\<exists>e' w'. login demo_hasher demo_env 1000 (Some ''jsmith'') (Some ''EMP001'') (Some ''letmein'') demo_world
        = (Failure 401 (Text ''Invalid credentials''), w')
      \<and> employees w' = [e'] \<and> failedLoginAttempts e' = 5 \<and> lockedUntil e' = Some 901000)"
proof -
  have h1: "passes patterns_username (Some ''jsmith'')" by (simp add: demo_defs)
  have h2: "passes employeeId_pattern (Some ''EMP001'')" by (simp add: demo_defs)
  have h3: "''letmein'' \<noteq> []" by simp
  have h4: "find (\<lambda>e. username e = ''jsmith'' \<and> employeeId e = ''EMP001'' \<and> isActive e)
              (employees demo_world) = Some demo_employee"
    by (simp add: demo_defs)
  have h5: "\<not> isAccountLocked demo_employee 1000" by (simp add: demo_defs isAccountLocked_def)
  have h6: "demo_hasher (passwordHash demo_employee) (''letmein'' @ salt demo_employee) = Some False"
    by (simp add: demo_defs)
  have h7: "\<bar>failedLoginAttempts demo_employee\<bar> < 2 ^ 53" by (simp add: demo_employee_def)
  from login_wrong_password_counts_and_locks
         [where h = demo_hasher and ev = demo_env and pw = "''letmein''" and w = demo_world
            and e = demo_employee and now = 1000, OF h1 h2 h3 h4 h5 h6 h7]
  obtain e' w' where
    r: "login demo_hasher demo_env 1000 (Some ''jsmith'') (Some ''EMP001'') (Some ''letmein'') demo_world
          = (Failure 401 (Text ''Invalid credentials''), w')"
       "employees w' = map (\<lambda>x. if e_id x = e_id demo_employee then e' else x) (employees demo_world)"
       "failedLoginAttempts e' = failedLoginAttempts demo_employee + 1"
       "lockedUntil e' = (if 5 \<le> failedLoginAttempts demo_employee + 1
                          then Some (1000 + 15 * 60 * 1000) else lockedUntil demo_employee)"
    by blast
  have "employees w' = [e']" using r(2) by (simp add: demo_world_def)
  moreover have "failedLoginAttempts e' = 5" using r(3) by (simp add: demo_employee_def)
  moreover have "lockedUntil e' = Some 901000" using r(4) by (simp add: demo_employee_def)
  ultimately show ?thesis using h1 h2 h4 h5 h6 h7 r(1) by blast
qed

text \<open>
  \<^bold>\<open>C2, as stated, fails.\<close> The claim has the login of a locked account answered with
  an error of its own. The demo employee, locked until 901000, logs in at 1000 with the
  right password: the answer is 401 \<^verbatim>\<open>Invalid credentials\<close>, the very answer a wrong
  password gets on the unlocked account.
\<close>

theorem login_locked_counterexample:
  "isAccountLocked locked_employee 1000 \<and>
   fst (login demo_hasher demo_env 1000 (Some ''jsmith'') (Some ''EMP001'') (Some ''Demo123!@#'')
          locked_world)
     = Failure 401 (Text ''Invalid credentials'') \<and>
   fst (login demo_hasher demo_env 1000 (Some ''jsmith'') (Some ''EMP001'') (Some ''letmein'')
          demo_world)
     = Failure 401 (Text ''Invalid credentials'')"
  by (simp add: demo_defs isAccountLocked_def login_def login_try_def findByCredentials_def
        validatePassword_def incrementFailedAttempts_def save_def login_caught_def Let_def
        split_beta js_add1_def)

text \<open>
  \<^bold>\<open>C2, amended.\<close> For a login with well-formed input against an employee found by the
  credentials and locked at that moment, \<^verbatim>\<open>findByCredentials\<close> throws the
  account-locked error, and the route answers 401 \<^verbatim>\<open>Invalid credentials\<close>. The world
  changes by the logged lookup and by one audit event that carries the lock message: the
  hasher is not called, nothing is saved, the employees are as they were.
\<close>

theorem login_locked_account:
  assumes "passes patterns_username (Some u)" and "passes employeeId_pattern (Some i)"
    and "pw \<noteq> []"
    and "find (\<lambda>e. username e = u \<and> employeeId e = i \<and> isActive e) (employees w) = Some e"
    and "isAccountLocked e now"
  shows "fst (findByCredentials u i now w) = Inl AccountLockedMessage
     \<and> login h ev now (Some u) (Some i) (Some pw) w =
        (Failure 401 (Text ''Invalid credentials''),
         w\<lparr>calls := calls w @ [EmployeeFindOne u i],
           audit := audit w @ [AuthenticationEvent ''EMPLOYEE_LOGIN_FAILED'' False
                                 AccountLockedMessage]\<rparr>)"
  using assms
  by (simp add: login_def login_try_def findByCredentials_def Let_def login_caught_def
        logAuthenticationEvent_def called_def)

theorem login_locked_account_witness:
  "isAccountLocked locked_employee 1000 \<and>
   login demo_hasher demo_env 1000 (Some ''jsmith'') (Some ''EMP001'') (Some ''Demo123!@#'')
     locked_world =
     (Failure 401 (Text ''Invalid credentials''),
      locked_world\<lparr>calls := [EmployeeFindOne ''jsmith'' ''EMP001''],
        audit := [AuthenticationEvent ''EMPLOYEE_LOGIN_FAILED'' False AccountLockedMessage]\<rparr>)"
proof -
  have h1: "passes patterns_username (Some ''jsmith'')" by (simp add: demo_defs)
  have h2: "passes employeeId_pattern (Some ''EMP001'')" by (simp add: demo_defs)
  have h3: "''Demo123!@#'' \<noteq> []" by simp
  have h4: "find (\<lambda>e. username e = ''jsmith'' \<and> employeeId e = ''EMP001'' \<and> isActive e)
              (employees locked_world) = Some locked_employee"
    by (simp add: demo_defs)
  have h5: "isAccountLocked locked_employee 1000"
    by (simp add: isAccountLocked_def locked_employee_def)
  have c: "calls locked_world = []" "audit locked_world = []" by (simp_all add: demo_defs)
  from login_locked_account
         [where h = demo_hasher and ev = demo_env and w = locked_world and now = 1000,
          OF h1 h2 h3 h4 h5]
  show ?thesis using h5 c by simp
qed

subsection \<open>Rounding to binary64\<close>

text \<open>\<open>floor_log2\<close> is the binary exponent of a positive rational.\<close>

lemma bitlen_pos: "0 < n \<Longrightarrow> 1 \<le> bitlen n"
  using bitlen_nonneg [of n] bitlen_eq_zero_iff [of n] by linarith

lemma floor_log2_lower:
  assumes "0 < x" shows "2 powi floor_log2 x \<le> x"
proof (cases "1 \<le> x")
  case True
  let ?n = "\<lfloor>x\<rfloor>"
  have n: "0 < ?n" using True by simp
  have b: "1 \<le> bitlen ?n" using bitlen_pos [OF n] .
  have "(2::int) ^ nat (bitlen ?n - 1) \<le> ?n" using bitlen_bounds [OF n] by simp
  then have "(of_int ((2::int) ^ nat (bitlen ?n - 1)) :: rat) \<le> of_int ?n" by (simp only: of_int_le_iff)
  also have "\<dots> \<le> x" by simp
  finally have "(2::rat) ^ nat (bitlen ?n - 1) \<le> x" by simp
  moreover have "(2::rat) powi (bitlen ?n - 1) = 2 ^ nat (bitlen ?n - 1)"
    using b by (simp add: power_int_def)
  ultimately show ?thesis using True by (simp add: floor_log2_def)
next
  case False
  let ?y = "1 / x"
  let ?n = "\<lceil>?y\<rceil>"
  let ?j = "bitlen (?n - 1)"
  have y: "1 < ?y" using False assms by simp
  then have n: "0 < ?n - 1" by (simp add: less_ceiling_iff)
  have "?n - 1 < 2 ^ nat ?j" using bitlen_bounds [OF n] by simp
  then have "?n \<le> 2 ^ nat ?j" by simp
  then have le: "(of_int ?n :: rat) \<le> of_int (2 ^ nat ?j)" by (simp only: of_int_le_iff)
  have "?y \<le> of_int ?n" by (rule le_of_int_ceiling)
  also note le
  also have "(of_int (2 ^ nat ?j) :: rat) = 2 ^ nat ?j" by simp
  finally have "?y \<le> 2 ^ nat ?j" .
  then have "1 / 2 ^ nat ?j \<le> x" using assms by (simp add: field_simps)
  moreover have "(2::rat) powi (- ?j) = 1 / 2 ^ nat ?j"
    using bitlen_nonneg [of "?n - 1"]
    by (simp only: power_int_minus_divide) (simp add: power_int_def)
  ultimately show ?thesis using False by (simp add: floor_log2_def)
qed

lemma floor_log2_upper:
  assumes "0 < x" shows "x < 2 powi (floor_log2 x + 1)"
proof (cases "1 \<le> x")
  case True
  let ?n = "\<lfloor>x\<rfloor>"
  have n: "0 < ?n" using True by simp
  have b: "1 \<le> bitlen ?n" using bitlen_pos [OF n] .
  have "?n < 2 ^ nat (bitlen ?n)" using bitlen_bounds [OF n] by simp
  then have "?n + 1 \<le> 2 ^ nat (bitlen ?n)" by simp
  then have "(of_int (?n + 1) :: rat) \<le> of_int (2 ^ nat (bitlen ?n))" by (simp only: of_int_le_iff)
  then have le: "(of_int (?n + 1) :: rat) \<le> 2 ^ nat (bitlen ?n)" by simp
  have "x < of_int ?n + 1" using floor_correct [of x] by simp
  then have "x < of_int (?n + 1)" by simp
  with le have "x < 2 ^ nat (bitlen ?n)" by (rule less_le_trans [rotated]) 
  moreover have "(2::rat) powi (bitlen ?n) = 2 ^ nat (bitlen ?n)"
    using b by (simp add: power_int_def)
  ultimately show ?thesis using True by (simp add: floor_log2_def)
next
  case False
  let ?y = "1 / x"
  let ?n = "\<lceil>?y\<rceil>"
  let ?j = "bitlen (?n - 1)"
  have y: "1 < ?y" using False assms by simp
  then have n: "0 < ?n - 1" by (simp add: less_ceiling_iff)
  have j: "1 \<le> ?j" using bitlen_pos [OF n] .
  have "2 ^ nat (?j - 1) \<le> ?n - 1" using bitlen_bounds [OF n] by simp
  then have "(of_int (2 ^ nat (?j - 1)) :: rat) \<le> of_int (?n - 1)" by (simp only: of_int_le_iff)
  then have le: "(2::rat) ^ nat (?j - 1) \<le> of_int (?n - 1)" by simp
  have "(of_int (?n - 1) :: rat) < ?y" using ceiling_correct [of ?y] by simp
  with le have "2 ^ nat (?j - 1) < ?y" by (rule le_less_trans)
  then have "x < 1 / 2 ^ nat (?j - 1)" using assms by (simp add: field_simps)
  moreover have "(2::rat) powi (- ?j + 1) = 1 / 2 ^ nat (?j - 1)"
  proof -
    have "- ?j + 1 = - (?j - 1)" by simp
    then show ?thesis using j by (simp only: power_int_minus_divide) (simp add: power_int_def)
  qed
  ultimately show ?thesis using False by (simp add: floor_log2_def)
qed

lemma floor_log2_unique:
  assumes "2 powi k \<le> x" and "x < 2 powi (k + 1)"
  shows "floor_log2 x = k"
proof -
  have "(0::rat) < 2 powi k" by (rule zero_less_power_int) simp
  then have pos: "0 < x" using assms(1) by (rule less_le_trans)
  have "(2::rat) powi k < 2 powi (floor_log2 x + 1)"
    using assms(1) floor_log2_upper [OF pos] by (rule le_less_trans)
  then have a: "k < floor_log2 x + 1"
    by (metis linorder_not_less one_le_numeral power_int_increasing)
  have "(2::rat) powi floor_log2 x < 2 powi (k + 1)"
    using floor_log2_lower [OF pos] assms(2) by (rule le_less_trans)
  then have b: "floor_log2 x < k + 1"
    by (metis linorder_not_less one_le_numeral power_int_increasing)
  from a b show ?thesis by simp
qed

lemma floor_log2_mono:
  assumes "0 < x" and "x \<le> y"
  shows "floor_log2 x \<le> floor_log2 y"
proof -
  have y: "0 < y" using assms by simp
  have "(2::rat) powi floor_log2 x \<le> x" using floor_log2_lower [OF assms(1)] .
  also note assms(2)
  also have "y < 2 powi (floor_log2 y + 1)" using floor_log2_upper [OF y] .
  finally have "floor_log2 x < floor_log2 y + 1"
    by (metis linorder_not_less one_le_numeral power_int_increasing)
  then show ?thesis by simp
qed

lemma round_half_even_range:
  "\<lfloor>y\<rfloor> \<le> round_half_even y \<and> round_half_even y \<le> \<lfloor>y\<rfloor> + 1"
  by (simp add: round_half_even_def Let_def)

lemma round_half_even_of_int [simp]: "round_half_even (of_int n) = n"
  by (simp add: round_half_even_def)

lemma round_half_even_near:
  assumes "of_int n - 1 / 2 < y" and "y < of_int n + 1 / 2"
  shows "round_half_even y = n"
proof (cases "of_int n \<le> y")
  case True
  have "\<lfloor>y\<rfloor> = n" using True assms(2) by (intro floor_unique) simp_all
  then show ?thesis using assms(2) by (simp add: round_half_even_def Let_def)
next
  case False
  have "\<lfloor>y\<rfloor> = n - 1" using False assms(1) by (intro floor_unique) simp_all
  then show ?thesis using assms(1) by (simp add: round_half_even_def Let_def)
qed

lemma round_half_even_mono:
  assumes "x \<le> y" shows "round_half_even x \<le> round_half_even y"
proof (cases "\<lfloor>x\<rfloor> = \<lfloor>y\<rfloor>")
  case True
  then show ?thesis using assms
    by (auto simp: round_half_even_def Let_def)
next
  case False
  then have "\<lfloor>x\<rfloor> + 1 \<le> \<lfloor>y\<rfloor>" using floor_mono [OF assms] by simp
  then show ?thesis
    using round_half_even_range [of x] round_half_even_range [of y] by linarith
qed

lemma nearest64_nonneg:
  assumes "0 \<le> a" shows "0 \<le> nearest64 a"
proof -
  let ?e = "max (floor_log2 a - 52) (- 1074)"
  have p: "(0::rat) < 2 powi ?e" by (rule zero_less_power_int) simp
  then have "0 \<le> a / 2 powi ?e" using assms by simp
  then have "0 \<le> \<lfloor>a / 2 powi ?e\<rfloor>" by simp
  then have "0 \<le> round_half_even (a / 2 powi ?e)"
    using round_half_even_range [of "a / 2 powi ?e"] by linarith
  then show ?thesis using p by (simp add: nearest64_def Let_def)
qed

lemma nearest64_mono:
  assumes "0 < a" and "a \<le> b"
  shows "nearest64 a \<le> nearest64 b"
proof -
  let ?ea = "max (floor_log2 a - 52) (- 1074)"
  let ?eb = "max (floor_log2 b - 52) (- 1074)"
  have b: "0 < b" using assms by simp
  have pa: "(0::rat) < 2 powi ?ea" and pb: "(0::rat) < 2 powi ?eb"
    by (rule zero_less_power_int, simp)+
  have le: "?ea \<le> ?eb" using floor_log2_mono [OF assms] by simp
  show ?thesis
  proof (cases "?ea = ?eb")
    case True
    have "a / 2 powi ?eb \<le> b / 2 powi ?eb" using assms(2) pb by (simp add: divide_right_mono)
    then have "round_half_even (a / 2 powi ?eb) \<le> round_half_even (b / 2 powi ?eb)"
      by (rule round_half_even_mono)
    then have "(of_int (round_half_even (a / 2 powi ?eb)) :: rat) * 2 powi ?eb
                 \<le> of_int (round_half_even (b / 2 powi ?eb)) * 2 powi ?eb"
      using pb by (simp add: mult_right_mono)
    then show ?thesis using True by (simp add: nearest64_def Let_def)
  next
    case False
    have lt: "?ea < ?eb" using le False by linarith
    have eb: "?eb = floor_log2 b - 52" using lt by linarith
    have ea: "floor_log2 a + 1 \<le> ?ea + 53" by linarith
    \<comment> \<open>the larger one is at least \<open>2 ^ 52\<close> units\<close>
    have "(2::rat) powi (?eb + 52) \<le> b" using floor_log2_lower [OF b] eb by simp
    moreover have "(2::rat) powi (?eb + 52) = 2 powi ?eb * 2 ^ 52"
      by (subst power_int_add) simp_all
    ultimately have "of_int (2 ^ 52) \<le> b / 2 powi ?eb" using pb by (simp add: field_simps)
    then have "round_half_even (of_int (2 ^ 52)) \<le> round_half_even (b / 2 powi ?eb)"
      by (rule round_half_even_mono)
    then have "(of_int (2 ^ 52) :: rat) \<le> of_int (round_half_even (b / 2 powi ?eb))"
      by (simp only: round_half_even_of_int of_int_le_iff)
    then have "(of_int (2 ^ 52) :: rat) * 2 powi ?eb \<le> nearest64 b"
      using pb by (simp add: nearest64_def Let_def mult_right_mono)
    then have lower: "(2::rat) powi (?eb + 52) \<le> nearest64 b"
      by (subst power_int_add) (simp_all add: mult.commute)
    \<comment> \<open>the smaller one is at most \<open>2 ^ 53\<close> units\<close>
    have "a < 2 powi (floor_log2 a + 1)" using floor_log2_upper [OF assms(1)] .
    also have "(2::rat) powi (floor_log2 a + 1) \<le> 2 powi (?ea + 53)"
      using ea by (intro power_int_increasing) simp_all
    finally have "a \<le> 2 powi (?ea + 53)" by simp
    moreover have "(2::rat) powi (?ea + 53) = 2 powi ?ea * 2 ^ 53"
      by (subst power_int_add) simp_all
    ultimately have "a / 2 powi ?ea \<le> of_int (2 ^ 53)" using pa by (simp add: field_simps)
    then have "round_half_even (a / 2 powi ?ea) \<le> round_half_even (of_int (2 ^ 53))"
      by (rule round_half_even_mono)
    then have "(of_int (round_half_even (a / 2 powi ?ea)) :: rat) \<le> of_int (2 ^ 53)"
      by (simp only: round_half_even_of_int of_int_le_iff)
    then have "nearest64 a \<le> of_int (2 ^ 53) * 2 powi ?ea"
      using pa by (simp add: nearest64_def Let_def mult_right_mono)
    then have upper: "nearest64 a \<le> 2 powi (?ea + 53)"
      by (subst power_int_add) (simp_all add: mult.commute)
    have "?ea + 53 \<le> ?eb + 52" using lt by linarith
    then have "(2::rat) powi (?ea + 53) \<le> 2 powi (?eb + 52)"
      by (rule power_int_increasing) simp
    with upper lower show ?thesis by linarith
  qed
qed

lemma toNumber_mono:
  assumes "x \<le> y" and "toNumber x = Some p" and "toNumber y = Some q"
  shows "p \<le> q"
proof -
  have p: "p = (if x = 0 then 0 else sgn x * nearest64 \<bar>x\<bar>)"
    using assms(2) by (auto simp: toNumber_def split: if_splits)
  have q: "q = (if y = 0 then 0 else sgn y * nearest64 \<bar>y\<bar>)"
    using assms(3) by (auto simp: toNumber_def split: if_splits)
  consider (neg) "y < 0" | (mid) "x \<le> 0" "0 \<le> y" | (pos) "0 < x"
    using assms(1) by linarith
  then show ?thesis
  proof cases
    case neg
    then have x: "x < 0" using assms(1) by simp
    have "nearest64 (- y) \<le> nearest64 (- x)"
      using neg assms(1) by (intro nearest64_mono) simp_all
    then show ?thesis using neg x by (simp add: p q)
  next
    case mid
    have "p \<le> 0" using mid(1) nearest64_nonneg [of "\<bar>x\<bar>"]
      by (cases "x = 0") (simp_all add: p mult_le_0_iff)
    moreover have "0 \<le> q" using mid(2) nearest64_nonneg [of "\<bar>y\<bar>"]
      by (cases "y = 0") (simp_all add: q)
    ultimately show ?thesis by simp
  next
    case pos
    then have y: "0 < y" using assms(1) by simp
    have "nearest64 x \<le> nearest64 y" using pos assms(1) by (rule nearest64_mono)
    then show ?thesis using pos y by (simp add: p q)
  qed
qed

lemma nearest64_normal:
  assumes "2 powi k \<le> a" and "a < 2 powi (k + 1)" and "- 1022 \<le> k"
  shows "nearest64 a = of_int (round_half_even (a / 2 powi (k - 52))) * 2 powi (k - 52)"
proof -
  have "floor_log2 a = k" using assms(1,2) by (rule floor_log2_unique)
  then have "max (floor_log2 a - 52) (- 1074) = k - 52" using assms(3) by simp
  then show ?thesis by (simp add: nearest64_def Let_def)
qed

text \<open>The Numbers of three decimals: 100000 and 150000 are binary64 values,
  100000.000000000001 lies within half a unit (\<open>2 powi (- 36)\<close>) of 100000.\<close>

lemma toNumber_100000: "toNumber 100000 = Some 100000"
proof -
  have "nearest64 100000
          = of_int (round_half_even (100000 / 2 powi (16 - 52))) * 2 powi (16 - 52)"
    by (rule nearest64_normal) simp_all
  also have "round_half_even (100000 / 2 powi (16 - 52)) = 6871947673600000"
    by (rule round_half_even_near) (simp_all add: power_int_minus_divide)
  also have "of_int 6871947673600000 * 2 powi (16 - 52) = (100000::rat)"
    by (simp add: power_int_minus_divide)
  finally show ?thesis by (simp add: toNumber_def)
qed

lemma toNumber_150000: "toNumber 150000 = Some 150000"
proof -
  have "nearest64 150000
          = of_int (round_half_even (150000 / 2 powi (17 - 52))) * 2 powi (17 - 52)"
    by (rule nearest64_normal) simp_all
  also have "round_half_even (150000 / 2 powi (17 - 52)) = 5153960755200000"
    by (rule round_half_even_near) (simp_all add: power_int_minus_divide)
  also have "of_int 5153960755200000 * 2 powi (17 - 52) = (150000::rat)"
    by (simp add: power_int_minus_divide)
  finally show ?thesis by (simp add: toNumber_def)
qed

lemma toNumber_just_above_100000: "toNumber 100000.000000000001 = Some 100000"
proof -
  have "nearest64 100000.000000000001
          = of_int (round_half_even (100000.000000000001 / 2 powi (16 - 52))) * 2 powi (16 - 52)"
    by (rule nearest64_normal) simp_all
  also have "round_half_even (100000.000000000001 / 2 powi (16 - 52)) = 6871947673600000"
    by (rule round_half_even_near) (simp_all add: power_int_minus_divide)
  also have "of_int 6871947673600000 * 2 powi (16 - 52) = (100000::rat)"
    by (simp add: power_int_minus_divide)
  finally show ?thesis by (simp add: toNumber_def)
qed

subsection \<open>Verifying a transaction\<close>

text \<open>The route once the request is well formed and the transaction is found.\<close>

lemma verify_found:
  assumes "objectId_pattern i" and "\<not> notes_too_long notes"
    and "find (\<lambda>t. t_id t = ObjectId i) (transactions w) = Some t"
  shows "verify now emp i (Some b) notes w =
     (let w1 = called (TransactionFindById i) w in
      if status t \<noteq> PENDING then
        (Failure 400 (Text ''Transaction is not in PENDING status''), w1)
      else if b \<and> amount t > verificationLimit emp \<and> role emp \<noteq> ADMIN \<and> role emp \<noteq> SUPERVISOR then
        (Failure 403 (ExceedsLimit (verificationLimit emp)), w1)
      else if b then
        (VerifyOk ''Transaction verified successfully'' (t_id t) VERIFIED (Some now) (rejectionReason t),
         logPaymentEvent ''TRANSACTION_VERIFIED'' (t_id t) (e_id emp)
           (called (TransactionSave (t_id t))
              (w1\<lparr>transactions := map (\<lambda>x. if t_id x = t_id t then t\<lparr>status := VERIFIED, verifiedAt := Some now\<rparr> else x) (transactions w)\<rparr>)))
      else
        (VerifyOk ''Transaction rejected'' (t_id t) REJECTED (verifiedAt t) (Some (notesOrDefault notes)),
         logPaymentEvent ''TRANSACTION_REJECTED'' (t_id t) (e_id emp)
           (called (TransactionSave (t_id t))
              (w1\<lparr>transactions := map (\<lambda>x. if t_id x = t_id t then t\<lparr>status := REJECTED, rejectionReason := Some (notesOrDefault notes)\<rparr> else x) (transactions w)\<rparr>))))"
  using assms
  by (simp add: verify_def Transaction_findById_def markAsVerified_def markAsRejected_def
        save_transaction_def Let_def called_def)

text \<open>
  \<^bold>\<open>C3.\<close> For a well-formed verify request (a 24-digit hexadecimal id, notes of at most
  500 characters) on a transaction that is found and PENDING, with the flag true: when the
  amount exceeds the employee's \<^verbatim>\<open>verificationLimit\<close> and the role is neither ADMIN nor
  SUPERVISOR, the answer is 403 with the limit message and the transactions, the employees
  and the audit log are as they were; when the amount does not exceed the limit, the call
  succeeds, answers with status VERIFIED and the stored transaction is VERIFIED, stamped
  with the time. The witness is the employee with limit 100000 and role EMPLOYEE,
  approving 150000 (refused) and 99999.99 (verified).
\<close>

theorem verify_limit_enforced:
  assumes "objectId_pattern i" and "\<not> notes_too_long notes"
    and "find (\<lambda>t. t_id t = ObjectId i) (transactions w) = Some t"
    and "status t = PENDING"
  shows "(amount t > verificationLimit emp \<and> role emp \<noteq> ADMIN \<and> role emp \<noteq> SUPERVISOR \<longrightarrow>
            (\<exists>w'. verify now emp i (Some True) notes w = (Failure 403 (ExceedsLimit (verificationLimit emp)), w')
                \<and> transactions w' = transactions w \<and> employees w' = employees w \<and> audit w' = audit w))
       \<and> (amount t \<le> verificationLimit emp \<longrightarrow>
            (\<exists>w'. verify now emp i (Some True) notes w =
                    (VerifyOk ''Transaction verified successfully'' (t_id t) VERIFIED (Some now) (rejectionReason t), w')
                \<and> transactions w' = map (\<lambda>x. if t_id x = t_id t then t\<lparr>status := VERIFIED, verifiedAt := Some now\<rparr> else x) (transactions w)
                \<and> find (\<lambda>t. t_id t = ObjectId i) (transactions w') = Some (t\<lparr>status := VERIFIED, verifiedAt := Some now\<rparr>)))"
proof -
  have k: "t_id (t\<lparr>status := VERIFIED, verifiedAt := Some now\<rparr>) = ObjectId i"
    using assms(3) by (auto simp: find_Some_iff)
  have f: "find (\<lambda>t. t_id t = ObjectId i) (map (\<lambda>x. if t_id x = t_id t then t\<lparr>status := VERIFIED, verifiedAt := Some now\<rparr> else x) (transactions w))
       = Some (t\<lparr>status := VERIFIED, verifiedAt := Some now\<rparr>)"
    using find_replace_same_key [OF assms(3) k] .
  show ?thesis
    using assms(4) f
    by (simp add: verify_found [OF assms(1-3)] Let_def called_def logPaymentEvent_def)
qed

theorem verify_limit_witness:
  "role demo_employee = EMPLOYEE \<and> verificationLimit demo_employee = 100000 \<and>
   amount large_txn = 150000 \<and> amount small_txn = 99999.99 \<and>
   (\<exists>w'. verify 2000 demo_employee ''507f1f77bcf86cd799439011'' (Some True) None payments_world
            = (Failure 403 (ExceedsLimit 100000), w')
        \<and> transactions w' = transactions payments_world) \<and>
   (\<exists>w'. verify 2000 demo_employee ''507f1f77bcf86cd799439012'' (Some True) None payments_world
            = (VerifyOk ''Transaction verified successfully'' ''507f1f77bcf86cd799439012''
                 VERIFIED (Some 2000) None, w')
        \<and> transactions w' = [large_txn, small_txn\<lparr>status := VERIFIED, verifiedAt := Some 2000\<rparr>])"
proof -
  have p1: "objectId_pattern ''507f1f77bcf86cd799439011''"
    and p2: "objectId_pattern ''507f1f77bcf86cd799439012''"
    by (simp_all add: objectId_pattern_def digit_chars_def)
  have n: "\<not> notes_too_long None" by simp
  have f1: "find (\<lambda>t. t_id t = ObjectId ''507f1f77bcf86cd799439011'') (transactions payments_world)
              = Some large_txn"
    by (simp add: txn_defs)
  have f2: "find (\<lambda>t. t_id t = ObjectId ''507f1f77bcf86cd799439012'') (transactions payments_world)
              = Some small_txn"
    by (simp add: txn_defs)
  have s1: "status large_txn = PENDING" and s2: "status small_txn = PENDING"
    by (simp_all add: txn_defs)
  have a: "role demo_employee = EMPLOYEE" "verificationLimit demo_employee = 100000"
    "amount large_txn = 150000" "amount small_txn = 99999.99"
    by (simp_all add: txn_defs demo_employee_def)
  have r1: "\<exists>w'. verify 2000 demo_employee ''507f1f77bcf86cd799439011'' (Some True) None payments_world
            = (Failure 403 (ExceedsLimit 100000), w')
        \<and> transactions w' = transactions payments_world"
    using verify_limit_enforced [OF p1 n f1 s1, of demo_employee 2000] a by auto
  have r2: "\<exists>w'. verify 2000 demo_employee ''507f1f77bcf86cd799439012'' (Some True) None payments_world
            = (VerifyOk ''Transaction verified successfully'' ''507f1f77bcf86cd799439012''
                 VERIFIED (Some 2000) None, w')
        \<and> transactions w' = [large_txn, small_txn\<lparr>status := VERIFIED, verifiedAt := Some 2000\<rparr>]"
    using verify_limit_enforced [OF p2 n f2 s2, of demo_employee 2000] a
    by (auto simp: txn_defs)
  show ?thesis using a r1 r2 by blast
qed

text \<open>
  \<^bold>\<open>C8, the claim as the specification states it, refuted.\<close> The comparison is
  \<^verbatim>\<open>>\<close> on two Numbers. A payment of 100000.000000000001 exceeds the limit of
  100000, both decimals have the Number 100000, and the demo employee, whose role is
  EMPLOYEE, is permitted to approve it.
\<close>

theorem verify_rounding_counterexample:
  "(100000::rat) < 100000.000000000001 \<and>
   toNumber 100000.000000000001 = Some (amount rounded_txn) \<and>
   toNumber 100000 = Some (verificationLimit demo_employee) \<and>
   role demo_employee = EMPLOYEE \<and> status rounded_txn = PENDING \<and>
   (\<exists>w'. verify 2000 demo_employee ''507f1f77bcf86cd799439016'' (Some True) None rounding_world
            = (VerifyOk ''Transaction verified successfully'' ''507f1f77bcf86cd799439016''
                 VERIFIED (Some 2000) None, w')
        \<and> transactions w' = [rounded_txn\<lparr>status := VERIFIED, verifiedAt := Some 2000\<rparr>, large_txn])"
proof -
  have p: "objectId_pattern ''507f1f77bcf86cd799439016''"
    by (simp add: objectId_pattern_def digit_chars_def)
  have n: "\<not> notes_too_long None" by simp
  have f: "find (\<lambda>t. t_id t = ObjectId ''507f1f77bcf86cd799439016'') (transactions rounding_world)
             = Some rounded_txn"
    by (simp add: rounded_txn_def rounding_world_def txn_defs)
  have a: "amount rounded_txn = 100000" "verificationLimit demo_employee = 100000"
    "role demo_employee = EMPLOYEE" "status rounded_txn = PENDING"
    by (simp_all add: rounded_txn_def demo_employee_def)
  have "\<exists>w'. verify 2000 demo_employee ''507f1f77bcf86cd799439016'' (Some True) None rounding_world
            = (VerifyOk ''Transaction verified successfully'' ''507f1f77bcf86cd799439016''
                 VERIFIED (Some 2000) None, w')
        \<and> transactions w' = [rounded_txn\<lparr>status := VERIFIED, verifiedAt := Some 2000\<rparr>, large_txn]"
    unfolding verify_found [OF p n f]
    by (simp add: a Let_def called_def logPaymentEvent_def rounded_txn_def rounding_world_def
          txn_defs)
  then show ?thesis
    using a toNumber_100000 toNumber_just_above_100000 by simp
qed

text \<open>
  \<^bold>\<open>C8, amended.\<close> The amount-versus-limit comparison of the verify operation is
  \<^verbatim>\<open>>\<close> on two Numbers (binary64), not exact decimal arithmetic. Let the stored
  amount be the Number of the decimal \<open>d\<close> and the stored limit the Number of the decimal
  \<open>l\<close>. For a well-formed approval of a found PENDING transaction by an employee whose
  role is neither ADMIN nor SUPERVISOR: the call is refused with 403 exactly when the
  stored amount exceeds the stored limit, and succeeds with status VERIFIED exactly when it
  does not; rounding never falsely denies (when \<open>d \<le> l\<close> the call succeeds, so a
  refusal implies \<open>l < d\<close>); and when both decimals are binary64 values themselves, the
  call is refused exactly when \<open>l < d\<close>. Rounding can falsely permit, as in the
  payment above.
\<close>

theorem verify_limit_compares_numbers:
  assumes "objectId_pattern i" and "\<not> notes_too_long nts"
    and "find (\<lambda>t. t_id t = ObjectId i) (transactions w) = Some t"
    and "status t = PENDING"
    and "role emp \<noteq> ADMIN" and "role emp \<noteq> SUPERVISOR"
    and "toNumber d = Some (amount t)" and "toNumber l = Some (verificationLimit emp)"
  shows "(fst (verify now emp i (Some True) nts w) = Failure 403 (ExceedsLimit (verificationLimit emp))
            \<longleftrightarrow> verificationLimit emp < amount t)
       \<and> (fst (verify now emp i (Some True) nts w)
              = VerifyOk ''Transaction verified successfully'' (t_id t) VERIFIED (Some now) (rejectionReason t)
            \<longleftrightarrow> amount t \<le> verificationLimit emp)
       \<and> (d \<le> l \<longrightarrow>
            fst (verify now emp i (Some True) nts w)
              = VerifyOk ''Transaction verified successfully'' (t_id t) VERIFIED (Some now) (rejectionReason t))
       \<and> (fst (verify now emp i (Some True) nts w) = Failure 403 (ExceedsLimit (verificationLimit emp))
            \<longrightarrow> l < d)
       \<and> (d = amount t \<and> l = verificationLimit emp \<longrightarrow>
            (fst (verify now emp i (Some True) nts w) = Failure 403 (ExceedsLimit (verificationLimit emp))
               \<longleftrightarrow> l < d))"
proof -
  have v: "fst (verify now emp i (Some True) nts w) =
      (if verificationLimit emp < amount t then Failure 403 (ExceedsLimit (verificationLimit emp))
       else VerifyOk ''Transaction verified successfully'' (t_id t) VERIFIED (Some now) (rejectionReason t))"
    using assms(4-6) by (simp add: verify_found [OF assms(1-3)] Let_def)
  have m: "d \<le> l \<Longrightarrow> amount t \<le> verificationLimit emp"
    using toNumber_mono [OF _ assms(7,8)] .
  have c1: "fst (verify now emp i (Some True) nts w) = Failure 403 (ExceedsLimit (verificationLimit emp))
            \<longleftrightarrow> verificationLimit emp < amount t"
    by (simp add: v)
  have c2: "fst (verify now emp i (Some True) nts w)
              = VerifyOk ''Transaction verified successfully'' (t_id t) VERIFIED (Some now) (rejectionReason t)
            \<longleftrightarrow> amount t \<le> verificationLimit emp"
    by (simp add: v not_less)
  have c3: "d \<le> l \<longrightarrow>
            fst (verify now emp i (Some True) nts w)
              = VerifyOk ''Transaction verified successfully'' (t_id t) VERIFIED (Some now) (rejectionReason t)"
    using m c2 by blast
  have c4: "fst (verify now emp i (Some True) nts w) = Failure 403 (ExceedsLimit (verificationLimit emp))
            \<longrightarrow> l < d"
    using m c1 by (meson not_le)
  have c5: "d = amount t \<and> l = verificationLimit emp \<longrightarrow>
            (fst (verify now emp i (Some True) nts w) = Failure 403 (ExceedsLimit (verificationLimit emp))
               \<longleftrightarrow> l < d)"
    using c1 by blast
  show ?thesis using c1 c2 c3 c4 c5 by (intro conjI)
qed

theorem verify_limit_compares_numbers_witness:
  "toNumber 150000 = Some (amount large_txn) \<and>
   toNumber 100000.000000000001 = Some (amount rounded_txn) \<and>
   toNumber 100000 = Some (verificationLimit demo_employee) \<and>
   role demo_employee = EMPLOYEE \<and>
   fst (verify 2000 demo_employee ''507f1f77bcf86cd799439011'' (Some True) None rounding_world)
     = Failure 403 (ExceedsLimit 100000) \<and>
   fst (verify 2000 demo_employee ''507f1f77bcf86cd799439016'' (Some True) None rounding_world)
     = VerifyOk ''Transaction verified successfully'' ''507f1f77bcf86cd799439016'' VERIFIED (Some 2000) None"
proof -
  have p1: "objectId_pattern ''507f1f77bcf86cd799439011''"
    and p2: "objectId_pattern ''507f1f77bcf86cd799439016''"
    by (simp_all add: objectId_pattern_def digit_chars_def)
  have n: "\<not> notes_too_long None" by simp
  have f1: "find (\<lambda>t. t_id t = ObjectId ''507f1f77bcf86cd799439011'') (transactions rounding_world)
              = Some large_txn"
    by (simp add: rounded_txn_def rounding_world_def txn_defs)
  have f2: "find (\<lambda>t. t_id t = ObjectId ''507f1f77bcf86cd799439016'') (transactions rounding_world)
              = Some rounded_txn"
    by (simp add: rounded_txn_def rounding_world_def txn_defs)
  have s1: "status large_txn = PENDING" and s2: "status rounded_txn = PENDING"
    by (simp_all add: rounded_txn_def txn_defs)
  have r: "role demo_employee \<noteq> ADMIN" "role demo_employee \<noteq> SUPERVISOR"
    by (simp_all add: demo_employee_def)
  have a: "amount large_txn = 150000" "amount rounded_txn = 100000"
    "verificationLimit demo_employee = 100000" "role demo_employee = EMPLOYEE"
    "t_id rounded_txn = ''507f1f77bcf86cd799439016''" "rejectionReason rounded_txn = None"
    by (simp_all add: rounded_txn_def txn_defs demo_employee_def)
  have d1: "toNumber 150000 = Some (amount large_txn)"
    and d2: "toNumber 100000.000000000001 = Some (amount rounded_txn)"
    and dl: "toNumber 100000 = Some (verificationLimit demo_employee)"
    using toNumber_150000 toNumber_just_above_100000 toNumber_100000 by (simp_all add: a)
  have r1: "fst (verify 2000 demo_employee ''507f1f77bcf86cd799439011'' (Some True) None rounding_world)
     = Failure 403 (ExceedsLimit 100000)"
    using verify_limit_compares_numbers [OF p1 n f1 s1 r d1 dl, of 2000, THEN conjunct1]
    by (simp add: a)
  have r2: "fst (verify 2000 demo_employee ''507f1f77bcf86cd799439016'' (Some True) None rounding_world)
     = VerifyOk ''Transaction verified successfully'' ''507f1f77bcf86cd799439016'' VERIFIED (Some 2000) None"
    using verify_limit_compares_numbers [OF p2 n f2 s2 r d2 dl, of 2000, THEN conjunct2, THEN conjunct1]
    by (simp add: a)
  show ?thesis using d1 d2 dl a(4) r1 r2 by (intro conjI)
qed

lemma verify_reject_found:
  assumes "objectId_pattern i" and "\<not> notes_too_long nts"
    and "find (\<lambda>t. t_id t = ObjectId i) (transactions w) = Some t"
    and "status t = PENDING"
  shows "verify now emp i (Some False) nts w =
            (VerifyOk ''Transaction rejected'' (t_id t) REJECTED (verifiedAt t)
               (Some (notesOrDefault nts)),
             logPaymentEvent ''TRANSACTION_REJECTED'' (t_id t) (e_id emp)
               (called (TransactionSave (t_id t))
                 ((called (TransactionFindById i) w)
                    \<lparr>transactions :=
                       map (\<lambda>x. if t_id x = t_id t
                                then t\<lparr>status := REJECTED, rejectionReason := Some (notesOrDefault nts)\<rparr>
                                else x) (transactions w)\<rparr>)))"
  using assms(4) by (simp add: verify_found [OF assms(1-3)] Let_def)

text \<open>
  \<^bold>\<open>C10.\<close> For a well-formed verify request on a transaction that is found and PENDING,
  with the flag false, whatever the amount, the limit and the role of the employee: the
  call succeeds, answers with status REJECTED and the reason, and the stored transaction is
  REJECTED with \<^verbatim>\<open>rejectionReason\<close> the notes, or the text
  \<^verbatim>\<open>Rejected by employee\<close> when the notes are absent or empty. The witness rejects
  the payment above the demo employee's limit with notes, without notes and with empty
  notes.
\<close>

theorem verify_reject_ignores_limit:
  assumes "objectId_pattern i" and "\<not> notes_too_long nts"
    and "find (\<lambda>t. t_id t = ObjectId i) (transactions w) = Some t"
    and "status t = PENDING"
  shows "\<exists>w' r. verify now emp i (Some False) nts w =
            (VerifyOk ''Transaction rejected'' (t_id t) REJECTED (verifiedAt t) (Some r), w')
         \<and> r = (case nts of None \<Rightarrow> ''Rejected by employee''
                 | Some n \<Rightarrow> if n = [] then ''Rejected by employee'' else n)
         \<and> find (\<lambda>t. t_id t = ObjectId i) (transactions w')
             = Some (t\<lparr>status := REJECTED, rejectionReason := Some r\<rparr>)
         \<and> transactions w' =
             map (\<lambda>x. if t_id x = t_id t
                      then t\<lparr>status := REJECTED, rejectionReason := Some r\<rparr>
                      else x) (transactions w)"
proof -
  let ?r = "notesOrDefault nts"
  let ?t' = "t\<lparr>status := REJECTED, rejectionReason := Some ?r\<rparr>"
  let ?w' = "logPaymentEvent ''TRANSACTION_REJECTED'' (t_id t) (e_id emp)
               (called (TransactionSave (t_id t))
                 ((called (TransactionFindById i) w)
                    \<lparr>transactions := map (\<lambda>x. if t_id x = t_id t then ?t' else x) (transactions w)\<rparr>))"
  have v: "verify now emp i (Some False) nts w =
            (VerifyOk ''Transaction rejected'' (t_id t) REJECTED (verifiedAt t) (Some ?r), ?w')"
    using verify_reject_found [OF assms] .
  have n: "?r = (case nts of None \<Rightarrow> ''Rejected by employee''
                 | Some n \<Rightarrow> if n = [] then ''Rejected by employee'' else n)"
    by (cases "nts") simp_all
  have tw: "transactions ?w' = map (\<lambda>x. if t_id x = t_id t then ?t' else x) (transactions w)"
    by (simp add: logPaymentEvent_def called_def)
  have k: "t_id ?t' = ObjectId i"
    using assms(3) by (auto simp: find_Some_iff)
  have f: "find (\<lambda>t. t_id t = ObjectId i) (transactions ?w') = Some ?t'"
    unfolding tw using find_replace_same_key [OF assms(3) k] .
  show ?thesis
    by (rule exI [of _ ?w'], rule exI [of _ ?r], intro conjI, rule v, rule n, rule f, rule tw)
qed

theorem verify_reject_witness:
  "verificationLimit demo_employee < amount large_txn \<and> role demo_employee = EMPLOYEE \<and>
   fst (verify 2000 demo_employee ''507f1f77bcf86cd799439011'' (Some False)
          (Some ''beneficiary account does not match'') payments_world)
     = VerifyOk ''Transaction rejected'' ''507f1f77bcf86cd799439011'' REJECTED None
         (Some ''beneficiary account does not match'') \<and>
   transactions (snd (verify 2000 demo_employee ''507f1f77bcf86cd799439011'' (Some False)
          (Some ''beneficiary account does not match'') payments_world))
     = [large_txn\<lparr>status := REJECTED,
          rejectionReason := Some ''beneficiary account does not match''\<rparr>, small_txn] \<and>
   fst (verify 2000 demo_employee ''507f1f77bcf86cd799439011'' (Some False) None payments_world)
     = VerifyOk ''Transaction rejected'' ''507f1f77bcf86cd799439011'' REJECTED None
         (Some ''Rejected by employee'') \<and>
   fst (verify 2000 demo_employee ''507f1f77bcf86cd799439011'' (Some False) (Some [])
          payments_world)
     = VerifyOk ''Transaction rejected'' ''507f1f77bcf86cd799439011'' REJECTED None
         (Some ''Rejected by employee'')"
proof -
  let ?i = "''507f1f77bcf86cd799439011''"
  have p1: "objectId_pattern ?i"
    by (simp add: objectId_pattern_def digit_chars_def)
  have n1: "\<not> notes_too_long (Some ''beneficiary account does not match'')"
    and n2: "\<not> notes_too_long None" and n3: "\<not> notes_too_long (Some [])"
    by simp_all
  have f1: "find (\<lambda>t. t_id t = ObjectId ?i) (transactions payments_world) = Some large_txn"
    by (simp add: txn_defs)
  have s1: "status large_txn = PENDING" by (simp add: txn_defs)
  have a: "verificationLimit demo_employee < amount large_txn" "role demo_employee = EMPLOYEE"
    by (simp_all add: txn_defs demo_employee_def)
  have l: "t_id large_txn = ?i" "verifiedAt large_txn = None" by (simp_all add: large_txn_def)
  have m: "map (\<lambda>x. if t_id x = ?i
                     then large_txn\<lparr>status := REJECTED,
                            rejectionReason := Some ''beneficiary account does not match''\<rparr>
                     else x) (transactions payments_world)
           = [large_txn\<lparr>status := REJECTED,
                rejectionReason := Some ''beneficiary account does not match''\<rparr>, small_txn]"
    by (simp add: txn_defs)
  from verify_reject_ignores_limit [OF p1 n1 f1 s1, of 2000 demo_employee]
  have r1: "fst (verify 2000 demo_employee ?i (Some False)
                   (Some ''beneficiary account does not match'') payments_world)
      = VerifyOk ''Transaction rejected'' ?i REJECTED None
          (Some ''beneficiary account does not match'')"
    and t1: "transactions (snd (verify 2000 demo_employee ?i (Some False)
                   (Some ''beneficiary account does not match'') payments_world))
      = [large_txn\<lparr>status := REJECTED,
           rejectionReason := Some ''beneficiary account does not match''\<rparr>, small_txn]"
    unfolding l using m by auto
  from verify_reject_ignores_limit [OF p1 n2 f1 s1, of 2000 demo_employee]
  have r2: "fst (verify 2000 demo_employee ?i (Some False) None payments_world)
      = VerifyOk ''Transaction rejected'' ?i REJECTED None (Some ''Rejected by employee'')"
    unfolding l by auto
  from verify_reject_ignores_limit [OF p1 n3 f1 s1, of 2000 demo_employee]
  have r3: "fst (verify 2000 demo_employee ?i (Some False) (Some []) payments_world)
      = VerifyOk ''Transaction rejected'' ?i REJECTED None (Some ''Rejected by employee'')"
    unfolding l by auto
  show ?thesis by (intro conjI a r1 t1 r2 r3)
qed

lemma verify_not_pending:
  assumes "objectId_pattern i" and "\<not> notes_too_long notes"
    and "find (\<lambda>t. t_id t = ObjectId i) (transactions w) = Some t"
    and "status t \<noteq> PENDING"
  shows "verify now emp i (Some b) notes w =
           (Failure 400 (Text ''Transaction is not in PENDING status''), called (TransactionFindById i) w)"
  using assms(4) by (simp add: verify_found [OF assms(1-3)] Let_def)

lemma verify_ok_leaves_resolved:
  assumes "verify now emp i v notes w = (VerifyOk m tid st va rr, w1)"
  shows "\<exists>t'. find (\<lambda>t. t_id t = ObjectId i) (transactions w1) = Some t' \<and> status t' \<noteq> PENDING"
proof -
  have a: "objectId_pattern i" "\<not> notes_too_long notes" "v \<noteq> None"
    using assms by (auto simp: verify_def split: if_splits)
  then obtain b where b: "v = Some b" by auto
  obtain t where t: "find (\<lambda>t. t_id t = ObjectId i) (transactions w) = Some t"
    using assms a by (cases "find (\<lambda>t. t_id t = ObjectId i) (transactions w)")
      (auto simp: verify_def Transaction_findById_def)
  have k: "t_id t = ObjectId i" using t by (auto simp: find_Some_iff)
  note vf = assms [unfolded b verify_found [OF a(1,2) t] Let_def]
  show ?thesis
  proof (cases b)
    case True
    let ?t' = "t\<lparr>status := VERIFIED, verifiedAt := Some now\<rparr>"
    have "transactions w1 = map (\<lambda>x. if t_id x = t_id t then ?t' else x) (transactions w)"
      using vf True by (auto simp: called_def logPaymentEvent_def split: if_splits)
    then have "find (\<lambda>t. t_id t = ObjectId i) (transactions w1) = Some ?t'"
      using find_replace_same_key [OF t, of ?t'] k by simp
    then show ?thesis by auto
  next
    case False
    let ?t' = "t\<lparr>status := REJECTED, rejectionReason := Some (notesOrDefault notes)\<rparr>"
    have "transactions w1 = map (\<lambda>x. if t_id x = t_id t then ?t' else x) (transactions w)"
      using vf False by (auto simp: called_def logPaymentEvent_def split: if_splits)
    then have "find (\<lambda>t. t_id t = ObjectId i) (transactions w1) = Some ?t'"
      using find_replace_same_key [OF t, of ?t'] k by simp
    then show ?thesis by auto
  qed
qed

text \<open>A verify call that fails leaves the documents and the audit log alone, and the
  route reads nothing of the world but the transactions.\<close>

lemma verify_failure_mutates_nothing:
  assumes "verify now emp i v nts w = (Failure code msg, w1)"
  shows "transactions w1 = transactions w \<and> employees w1 = employees w \<and> audit w1 = audit w"
  using assms
  by (auto simp: verify_def Transaction_findById_def markAsVerified_def markAsRejected_def
        save_transaction_def called_def logPaymentEvent_def Let_def
      split: if_splits option.splits)

lemma verify_reads_transactions_only:
  assumes "transactions w1 = transactions w"
  shows "fst (verify now emp i v nts w1) = fst (verify now emp i v nts w)
       \<and> transactions (snd (verify now emp i v nts w1)) = transactions (snd (verify now emp i v nts w))"
  using assms
  by (auto simp: verify_def Transaction_findById_def markAsVerified_def markAsRejected_def
        save_transaction_def called_def logPaymentEvent_def Let_def
      split: option.splits)

text \<open>
  \<^bold>\<open>C4, as stated, fails\<close> for a first call that is refused. The demo employee (limit
  100000) approves the pending payment of 150000 and is answered 403; the payment is
  still PENDING, and the supervisor's approval that follows succeeds and verifies it,
  rather than being answered \<^verbatim>\<open>Transaction is not in PENDING status\<close>.
\<close>

theorem verify_twice_counterexample:
  "fst (verify 2000 demo_employee ''507f1f77bcf86cd799439011'' (Some True) None payments_world)
     = Failure 403 (ExceedsLimit 100000) \<and>
   fst (verify 3000 demo_supervisor ''507f1f77bcf86cd799439011'' (Some True) None
          (snd (verify 2000 demo_employee ''507f1f77bcf86cd799439011'' (Some True) None
                  payments_world)))
     = VerifyOk ''Transaction verified successfully'' ''507f1f77bcf86cd799439011'' VERIFIED
         (Some 3000) None"
proof -
  let ?i = "''507f1f77bcf86cd799439011''"
  let ?w1 = "called (TransactionFindById ?i) payments_world"
  have p: "objectId_pattern ?i" by (simp add: objectId_pattern_def digit_chars_def)
  have n: "\<not> notes_too_long None" by simp
  have f: "find (\<lambda>t. t_id t = ObjectId ?i) (transactions payments_world) = Some large_txn"
    by (simp add: txn_defs)
  have f1: "find (\<lambda>t. t_id t = ObjectId ?i) (transactions ?w1) = Some large_txn"
    using f by (simp add: called_def)
  have first: "verify 2000 demo_employee ?i (Some True) None payments_world
                 = (Failure 403 (ExceedsLimit 100000), ?w1)"
    by (simp add: verify_found [OF p n f] Let_def large_txn_def demo_employee_def)
  have second: "fst (verify 3000 demo_supervisor ?i (Some True) None ?w1)
     = VerifyOk ''Transaction verified successfully'' ?i VERIFIED (Some 3000) None"
    by (simp add: verify_found [OF p n f1] Let_def large_txn_def demo_supervisor_def
          demo_employee_def)
  show ?thesis using first second by simp
qed

text \<open>
  \<^bold>\<open>C4, amended.\<close> A well-formed verify request on a transaction that is found and not
  PENDING is answered 400 \<^verbatim>\<open>Transaction is not in PENDING status\<close>, and the world
  changes by the logged lookup only. Consequently, once a verify call on a transaction has
  succeeded, whether it approved or rejected, any later well-formed verify call on the
  same transaction, by any employee, with any flag and notes, gets that answer and changes
  nothing: the transition is applied once. A verify call that fails, whatever its error,
  changes no transaction, no employee and no audit entry, and the call that follows it is
  answered, and changes the transactions, as it would have without it.
\<close>

theorem verify_requires_pending:
  "(objectId_pattern i \<and> \<not> notes_too_long nts
      \<and> find (\<lambda>t. t_id t = ObjectId i) (transactions w) = Some t \<and> status t \<noteq> PENDING \<longrightarrow>
      verify now emp i (Some b) nts w =
        (Failure 400 (Text ''Transaction is not in PENDING status''), called (TransactionFindById i) w))
   \<and> (verify now emp i v nts w = (VerifyOk m tid st va rr, w1)
        \<and> objectId_pattern i2 \<and> ObjectId i2 = ObjectId i \<and> \<not> notes_too_long nts2 \<longrightarrow>
      verify now2 emp2 i2 (Some b2) nts2 w1 =
        (Failure 400 (Text ''Transaction is not in PENDING status''), called (TransactionFindById i2) w1))
   \<and> (verify now emp i v nts w = (Failure code msg, w1) \<longrightarrow>
        transactions w1 = transactions w \<and> employees w1 = employees w \<and> audit w1 = audit w
        \<and> fst (verify now2 emp2 i2 v2 nts2 w1) = fst (verify now2 emp2 i2 v2 nts2 w)
        \<and> transactions (snd (verify now2 emp2 i2 v2 nts2 w1))
            = transactions (snd (verify now2 emp2 i2 v2 nts2 w)))"
proof (intro conjI impI)
  assume a: "objectId_pattern i \<and> \<not> notes_too_long nts
      \<and> find (\<lambda>t. t_id t = ObjectId i) (transactions w) = Some t \<and> status t \<noteq> PENDING"
  show "verify now emp i (Some b) nts w =
        (Failure 400 (Text ''Transaction is not in PENDING status''), called (TransactionFindById i) w)"
    by (rule verify_not_pending [where t = t]) (use a in simp_all)
next
  assume a: "verify now emp i v nts w = (VerifyOk m tid st va rr, w1)
        \<and> objectId_pattern i2 \<and> ObjectId i2 = ObjectId i \<and> \<not> notes_too_long nts2"
  then have first: "verify now emp i v nts w = (VerifyOk m tid st va rr, w1)" by simp
  from verify_ok_leaves_resolved [OF first]
  obtain t' where t: "find (\<lambda>t. t_id t = ObjectId i) (transactions w1) = Some t'"
    and s: "status t' \<noteq> PENDING"
    by blast
  have f: "find (\<lambda>t. t_id t = ObjectId i2) (transactions w1) = Some t'"
    using t a by simp
  show "verify now2 emp2 i2 (Some b2) nts2 w1 =
        (Failure 400 (Text ''Transaction is not in PENDING status''), called (TransactionFindById i2) w1)"
    by (rule verify_not_pending [where t = t']) (use a f s in simp_all)
next
  assume a: "verify now emp i v nts w = (Failure code msg, w1)"
  note same = verify_failure_mutates_nothing [OF a]
  then show "transactions w1 = transactions w" and "employees w1 = employees w"
    and "audit w1 = audit w"
    by simp_all
  from same have t: "transactions w1 = transactions w" by simp
  from verify_reads_transactions_only [OF t]
  show "fst (verify now2 emp2 i2 v2 nts2 w1) = fst (verify now2 emp2 i2 v2 nts2 w)"
    and "transactions (snd (verify now2 emp2 i2 v2 nts2 w1))
            = transactions (snd (verify now2 emp2 i2 v2 nts2 w))"
    by simp_all
qed

theorem verify_requires_pending_witness:
  "status verified_a \<noteq> PENDING \<and>
   verify 2000 demo_employee ''507f1f77bcf86cd79943901a'' (Some True) None batch_world
     = (Failure 400 (Text ''Transaction is not in PENDING status''),
        called (TransactionFindById ''507f1f77bcf86cd79943901a'') batch_world) \<and>
   (\<exists>r w1. verify 2000 demo_employee ''507f1f77bcf86cd799439011'' (Some False) None payments_world
             = (r, w1)
         \<and> r = VerifyOk ''Transaction rejected'' ''507f1f77bcf86cd799439011'' REJECTED None
                 (Some ''Rejected by employee'')
         \<and> verify 3000 demo_supervisor ''507F1F77BCF86CD799439011'' (Some True) None w1
             = (Failure 400 (Text ''Transaction is not in PENDING status''),
                called (TransactionFindById ''507F1F77BCF86CD799439011'') w1)) \<and>
   (\<exists>w1. verify 2000 demo_employee ''507f1f77bcf86cd799439011'' (Some True) None payments_world
             = (Failure 403 (ExceedsLimit 100000), w1)
         \<and> transactions w1 = transactions payments_world
         \<and> fst (verify 3000 demo_supervisor ''507f1f77bcf86cd799439011'' (Some True) None w1)
             = fst (verify 3000 demo_supervisor ''507f1f77bcf86cd799439011'' (Some True) None
                      payments_world))"
proof -
  let ?w1 = "snd (verify 2000 demo_employee ''507f1f77bcf86cd799439011'' (Some False) None
                    payments_world)"
  have p1: "objectId_pattern ''507f1f77bcf86cd799439011''"
    and p2: "objectId_pattern ''507F1F77BCF86CD799439011''"
    by (simp_all add: objectId_pattern_def digit_chars_def)
  have n: "\<not> notes_too_long None" by simp
  have f1: "find (\<lambda>t. t_id t = ObjectId ''507f1f77bcf86cd799439011'') (transactions payments_world)
              = Some large_txn"
    by (simp add: txn_defs)
  have r: "fst (verify 2000 demo_employee ''507f1f77bcf86cd799439011'' (Some False) None
                  payments_world)
      = VerifyOk ''Transaction rejected'' ''507f1f77bcf86cd799439011'' REJECTED None
           (Some ''Rejected by employee'')"
    by (simp add: verify_found [OF p1 n f1] Let_def large_txn_def)
  then have first: "verify 2000 demo_employee ''507f1f77bcf86cd799439011'' (Some False) None
                      payments_world
      = (VerifyOk ''Transaction rejected'' ''507f1f77bcf86cd799439011'' REJECTED None
           (Some ''Rejected by employee''), ?w1)"
    by (simp add: prod_eq_iff)
  have o: "ObjectId ''507F1F77BCF86CD799439011'' = ObjectId ''507f1f77bcf86cd799439011''"
    by (simp add: ObjectId_def hex_lower_def)
  note second = verify_requires_pending
    [where now = 2000 and emp = demo_employee and i = "''507f1f77bcf86cd799439011''"
       and v = "Some False" and nts = None and w = payments_world and ?w1.0 = ?w1
       and ?i2.0 = "''507F1F77BCF86CD799439011''" and ?nts2.0 = None
       and ?now2.0 = 3000 and ?emp2.0 = demo_supervisor and ?b2.0 = True,
     THEN conjunct2, THEN conjunct1, rule_format,
     OF conjI [OF first conjI [OF p2 conjI [OF o n]]]]
  have pa: "objectId_pattern ''507f1f77bcf86cd79943901a''"
    by (simp add: objectId_pattern_def digit_chars_def)
  have fa: "find (\<lambda>t. t_id t = ObjectId ''507f1f77bcf86cd79943901a'') (transactions batch_world)
              = Some verified_a"
    by (simp add: batch_defs)
  have sa: "status verified_a \<noteq> PENDING" by (simp add: verified_a_def)
  note direct = verify_requires_pending
    [where now = 2000 and emp = demo_employee and i = "''507f1f77bcf86cd79943901a''"
       and b = True and nts = None and w = batch_world and t = verified_a,
     THEN conjunct1, rule_format, OF conjI [OF pa conjI [OF n conjI [OF fa sa]]]]
  have twice: "\<exists>r w1. verify 2000 demo_employee ''507f1f77bcf86cd799439011'' (Some False) None
                         payments_world = (r, w1)
         \<and> r = VerifyOk ''Transaction rejected'' ''507f1f77bcf86cd799439011'' REJECTED None
                 (Some ''Rejected by employee'')
         \<and> verify 3000 demo_supervisor ''507F1F77BCF86CD799439011'' (Some True) None w1
             = (Failure 400 (Text ''Transaction is not in PENDING status''),
                called (TransactionFindById ''507F1F77BCF86CD799439011'') w1)"
    by (rule exI [of _ "fst (verify 2000 demo_employee ''507f1f77bcf86cd799439011''
                              (Some False) None payments_world)"],
        rule exI [of _ ?w1], intro conjI, simp, rule r, rule second)
  let ?w3 = "called (TransactionFindById ''507f1f77bcf86cd799439011'') payments_world"
  have refused: "verify 2000 demo_employee ''507f1f77bcf86cd799439011'' (Some True) None
                   payments_world = (Failure 403 (ExceedsLimit 100000), ?w3)"
    by (simp add: verify_found [OF p1 n f1] Let_def large_txn_def demo_employee_def)
  note after = verify_requires_pending
    [where now = 2000 and emp = demo_employee and i = "''507f1f77bcf86cd799439011''"
       and v = "Some True" and nts = None and w = payments_world and ?w1.0 = ?w3
       and code = 403 and msg = "ExceedsLimit 100000"
       and ?i2.0 = "''507f1f77bcf86cd799439011''" and ?nts2.0 = None and ?v2.0 = "Some True"
       and ?now2.0 = 3000 and ?emp2.0 = demo_supervisor,
     THEN conjunct2, THEN conjunct2, rule_format, OF refused]
  have retry: "\<exists>w1. verify 2000 demo_employee ''507f1f77bcf86cd799439011'' (Some True) None
                        payments_world = (Failure 403 (ExceedsLimit 100000), w1)
         \<and> transactions w1 = transactions payments_world
         \<and> fst (verify 3000 demo_supervisor ''507f1f77bcf86cd799439011'' (Some True) None w1)
             = fst (verify 3000 demo_supervisor ''507f1f77bcf86cd799439011'' (Some True) None
                      payments_world)"
    using refused after by (intro exI [of _ ?w3]) simp
  show ?thesis by (intro conjI sa direct twice retry)
qed

subsection \<open>Refreshing tokens\<close>

text \<open>
  \<^bold>\<open>C6, as stated, fails.\<close> The claim has one error for every failing sub-check of a
  refresh. Three failing calls: a malformed token is answered
  \<^verbatim>\<open>Invalid refresh token\<close>, the demo employee's access token
  \<^verbatim>\<open>Invalid token type\<close>, and their refresh token, once they are deactivated,
  \<^verbatim>\<open>Employee not found or inactive\<close>.
\<close>

theorem refresh_errors_differ:
  "fst (refresh demo_env 5000 (Some (Malformed ''abc'')) demo_world)
     = Failure 401 (Text ''Invalid refresh token'') \<and>
   fst (refresh demo_env 5000 (Some demo_access_token) demo_world)
     = Failure 401 (Text ''Invalid token type'') \<and>
   fst (refresh demo_env 5000 (Some demo_refresh_token) inactive_world)
     = Failure 401 (Text ''Employee not found or inactive'')"
  by (simp add: refresh_def refresh_caught_def token_defs findById_def castObjectId_def
        ObjectId_def hex_lower_def inactive_world_def demo_world_def demo_employee_def)

text \<open>
  \<^bold>\<open>C6, amended.\<close> A refresh that fails is answered with status 401 and a message that
  depends on the sub-check: \<^verbatim>\<open>Invalid refresh token\<close> when \<^verbatim>\<open>jwt.verify\<close>
  throws (missing or malformed token, wrong signature, expired) and when the lookup of the
  employee throws (the employee id of the token is not an ObjectId);
  \<^verbatim>\<open>Invalid token type\<close> when the type claim is not \<^verbatim>\<open>employee_refresh\<close>;
  \<^verbatim>\<open>Employee not found or inactive\<close> when the lookup finds no employee or an inactive
  one. Every answer is a success or one of these three, and no employee or transaction is
  changed.
\<close>

theorem refresh_failure_messages:
  "(\<forall>err. jwt_verify tok (JWT_SECRET ev) now = Inl err \<longrightarrow>
      fst (refresh ev now tok w) = Failure 401 (Text ''Invalid refresh token''))
   \<and> (\<forall>c. jwt_verify tok (JWT_SECRET ev) now = Inr c \<and> c_type c \<noteq> ''employee_refresh'' \<longrightarrow>
      fst (refresh ev now tok w) = Failure 401 (Text ''Invalid token type''))
   \<and> (\<forall>c. jwt_verify tok (JWT_SECRET ev) now = Inr c \<and> c_type c = ''employee_refresh''
          \<and> castObjectId (c_employeeId c) = None \<longrightarrow>
      fst (refresh ev now tok w) = Failure 401 (Text ''Invalid refresh token''))
   \<and> (\<forall>c oid. jwt_verify tok (JWT_SECRET ev) now = Inr c \<and> c_type c = ''employee_refresh''
          \<and> castObjectId (c_employeeId c) = Some oid
          \<and> (case find (\<lambda>e. e_id e = oid) (employees w) of
                None \<Rightarrow> True | Some e \<Rightarrow> \<not> isActive e) \<longrightarrow>
      fst (refresh ev now tok w) = Failure 401 (Text ''Employee not found or inactive''))
   \<and> ((\<exists>a b. fst (refresh ev now tok w) = RefreshOk a b)
        \<or> fst (refresh ev now tok w) \<in>
             {Failure 401 (Text ''Invalid refresh token''), Failure 401 (Text ''Invalid token type''),
              Failure 401 (Text ''Employee not found or inactive'')})
   \<and> employees (snd (refresh ev now tok w)) = employees w
   \<and> transactions (snd (refresh ev now tok w)) = transactions w"
  by (auto simp: refresh_def refresh_caught_def findById_def logAuthenticationEvent_def called_def
        split: sum.splits option.splits)

theorem refresh_failure_witness:
  "jwt_verify (Some (Malformed ''abc'')) (JWT_SECRET demo_env) 5000 = Inl ''jwt malformed'' \<and>
   fst (refresh demo_env 5000 (Some (Malformed ''abc'')) demo_world)
     = Failure 401 (Text ''Invalid refresh token'') \<and>
   jwt_verify (Some demo_access_token) (JWT_SECRET demo_env) 5000
     = Inr \<lparr>c_employeeId = ''64b7f0c2a1d3e4f5a6b7c8d9'', c_iat = 1, c_type = ''employee_access'',
            c_exp = 86401, c_iss = ''secure-payments-portal'', c_aud = ''banking-employees''\<rparr> \<and>
   fst (refresh demo_env 5000 (Some demo_access_token) demo_world)
     = Failure 401 (Text ''Invalid token type'') \<and>
   castObjectId ''EMP001'' = None \<and>
   fst (refresh demo_env 5000 (Some stray_refresh_token) demo_world)
     = Failure 401 (Text ''Invalid refresh token'') \<and>
   castObjectId ''64b7f0c2a1d3e4f5a6b7c8d9'' = Some ''64b7f0c2a1d3e4f5a6b7c8d9'' \<and>
   fst (refresh demo_env 5000 (Some demo_refresh_token) inactive_world)
     = Failure 401 (Text ''Employee not found or inactive'')"
proof -
  let ?a = "\<lparr>c_employeeId = ''64b7f0c2a1d3e4f5a6b7c8d9'', c_iat = 1, c_type = ''employee_access'',
            c_exp = 86401, c_iss = ''secure-payments-portal'', c_aud = ''banking-employees''\<rparr>"
  let ?r = "\<lparr>c_employeeId = ''64b7f0c2a1d3e4f5a6b7c8d9'', c_iat = 1, c_type = ''employee_refresh'',
            c_exp = 604801, c_iss = ''secure-payments-portal'', c_aud = ''banking-employees''\<rparr>"
  let ?s = "\<lparr>c_employeeId = ''EMP001'', c_iat = 1, c_type = ''employee_refresh'',
            c_exp = 604801, c_iss = ''secure-payments-portal'', c_aud = ''banking-employees''\<rparr>"
  have v1: "jwt_verify (Some (Malformed ''abc'')) (JWT_SECRET demo_env) 5000 = Inl ''jwt malformed''"
    by simp
  have v2: "jwt_verify (Some demo_access_token) (JWT_SECRET demo_env) 5000 = Inr ?a"
    by (simp add: token_defs)
  have t2: "c_type ?a \<noteq> ''employee_refresh''" by simp
  have v3: "jwt_verify (Some demo_refresh_token) (JWT_SECRET demo_env) 5000 = Inr ?r"
    by (simp add: token_defs)
  have t3: "c_type ?r = ''employee_refresh''" by simp
  have c3: "castObjectId (c_employeeId ?r) = Some ''64b7f0c2a1d3e4f5a6b7c8d9''"
    by (simp add: castObjectId_def ObjectId_def hex_lower_def)
  have e3: "(case find (\<lambda>e. e_id e = ''64b7f0c2a1d3e4f5a6b7c8d9'') (employees inactive_world) of
               None \<Rightarrow> True | Some e \<Rightarrow> \<not> isActive e)"
    by (simp add: inactive_world_def demo_world_def demo_employee_def)
  have v4: "jwt_verify (Some stray_refresh_token) (JWT_SECRET demo_env) 5000 = Inr ?s"
    by (simp add: stray_refresh_token_def token_defs)
  have t4: "c_type ?s = ''employee_refresh''" by simp
  have c4: "castObjectId (c_employeeId ?s) = None" by (simp add: castObjectId_def)
  note r1 = refresh_failure_messages
    [of "Some (Malformed ''abc'')" demo_env 5000 demo_world, THEN conjunct1, rule_format, OF v1]
  note r2 = refresh_failure_messages
    [of "Some demo_access_token" demo_env 5000 demo_world, THEN conjunct2, THEN conjunct1,
     rule_format, OF conjI [OF v2 t2]]
  note r4 = refresh_failure_messages
    [of "Some stray_refresh_token" demo_env 5000 demo_world, THEN conjunct2, THEN conjunct2,
     THEN conjunct1, rule_format, OF conjI [OF v4 conjI [OF t4 c4]]]
  note r3 = refresh_failure_messages
    [of "Some demo_refresh_token" demo_env 5000 inactive_world, THEN conjunct2, THEN conjunct2,
     THEN conjunct2, THEN conjunct1, rule_format, OF conjI [OF v3 conjI [OF t3 conjI [OF c3 e3]]]]
  show ?thesis using c3 c4 by (intro conjI v1 r1 v2 r2 r4 r3) simp_all
qed

text \<open>The lookup of the refresh route reads the id of the token without regard to case.\<close>

lemma refresh_upper_case_id:
  "fst (refresh demo_env 5000 (Some upper_refresh_token) demo_world)
     = RefreshOk (generateEmployeeToken demo_env 5000 ''64b7f0c2a1d3e4f5a6b7c8d9'')
                 (generateEmployeeRefreshToken demo_env 5000 ''64b7f0c2a1d3e4f5a6b7c8d9'')"
  by (simp add: refresh_def upper_refresh_token_def generateEmployeeRefreshToken_def jwt_sign_def
        demo_env_def findById_def castObjectId_def ObjectId_def hex_lower_def demo_world_def
        demo_employee_def)

text \<open>
  \<^bold>\<open>C7.\<close> The refresh route answers 401 \<^verbatim>\<open>Invalid token type\<close>, changing nothing,
  to every token that verifies and whose type claim is not \<^verbatim>\<open>employee_refresh\<close>; a
  token it accepts carries that type claim; a token made by
  \<^verbatim>\<open>generateEmployeeToken\<close> (type \<^verbatim>\<open>employee_access\<close>) is never accepted by
  it. For the converse, the token check of the protected routes as the spec gives it
  (\<open>validate\<close>) accepts only a token whose type claim is the expected one, and never a
  token made by \<^verbatim>\<open>generateEmployeeRefreshToken\<close> as an access token.
\<close>

theorem token_type_matches_operation:
  "(\<forall>c. jwt_verify tok (JWT_SECRET ev) now = Inr c \<and> c_type c \<noteq> ''employee_refresh'' \<longrightarrow>
      refresh ev now tok w = (Failure 401 (Text ''Invalid token type''), w))
   \<and> (\<forall>a b w'. refresh ev now tok w = (RefreshOk a b, w') \<longrightarrow>
         (\<exists>c k. tok = Some (Signed c k) \<and> c_type c = ''employee_refresh''))
   \<and> (\<forall>t eid a b w'. refresh ev now (Some (generateEmployeeToken ev t eid)) w \<noteq> (RefreshOk a b, w'))
   \<and> (\<forall>tk ty x. validate ev now tk ty = Inr x \<longrightarrow>
         (\<exists>c k. tk = Signed c k \<and> c_type c = type_claim ty))
   \<and> (\<forall>t eid x. validate ev now (generateEmployeeRefreshToken ev t eid) AccessToken \<noteq> Inr x)"
proof (intro conjI allI impI)
  fix c assume "jwt_verify tok (JWT_SECRET ev) now = Inr c \<and> c_type c \<noteq> ''employee_refresh''"
  then show "refresh ev now tok w = (Failure 401 (Text ''Invalid token type''), w)"
    by (simp add: refresh_def refresh_caught_def)
next
  fix a b w' assume r: "refresh ev now tok w = (RefreshOk a b, w')"
  show "\<exists>c k. tok = Some (Signed c k) \<and> c_type c = ''employee_refresh''"
  proof (cases tok)
    case None with r show ?thesis by (simp add: refresh_def refresh_caught_def)
  next
    case (Some tk)
    show ?thesis
    proof (cases tk)
      case (Malformed s) with r Some show ?thesis by (simp add: refresh_def refresh_caught_def)
    next
      case (Signed c k) with r Some show ?thesis
        by (auto simp: refresh_def refresh_caught_def split: if_splits sum.splits option.splits prod.splits)
    qed
  qed
next
  fix t eid a b w'
  show "refresh ev now (Some (generateEmployeeToken ev t eid)) w \<noteq> (RefreshOk a b, w')"
    by (simp add: refresh_def refresh_caught_def generateEmployeeToken_def jwt_sign_def)
next
  fix tk ty x assume v: "validate ev now tk ty = Inr x"
  show "\<exists>c k. tk = Signed c k \<and> c_type c = type_claim ty"
  proof (cases tk)
    case (Malformed s) with v show ?thesis by simp
  next
    case (Signed c k) with v show ?thesis by (auto split: if_splits)
  qed
next
  fix t eid x
  show "validate ev now (generateEmployeeRefreshToken ev t eid) AccessToken \<noteq> Inr x"
    by (simp add: generateEmployeeRefreshToken_def jwt_sign_def type_claim_def)
qed

theorem token_type_witness:
  "jwt_verify (Some demo_access_token) (JWT_SECRET demo_env) 5000
     = Inr \<lparr>c_employeeId = ''64b7f0c2a1d3e4f5a6b7c8d9'', c_iat = 1, c_type = ''employee_access'',
            c_exp = 86401, c_iss = ''secure-payments-portal'', c_aud = ''banking-employees''\<rparr> \<and>
   refresh demo_env 5000 (Some demo_access_token) demo_world
     = (Failure 401 (Text ''Invalid token type''), demo_world) \<and>
   validate demo_env 5000 demo_access_token AccessToken = Inr ''64b7f0c2a1d3e4f5a6b7c8d9'' \<and>
   validate demo_env 5000 demo_access_token RefreshToken = Inl TokenTypeMismatch \<and>
   validate demo_env 5000 demo_refresh_token AccessToken = Inl TokenTypeMismatch"
proof -
  let ?c = "\<lparr>c_employeeId = ''64b7f0c2a1d3e4f5a6b7c8d9'', c_iat = 1, c_type = ''employee_access'',
            c_exp = 86401, c_iss = ''secure-payments-portal'', c_aud = ''banking-employees''\<rparr>"
  have v: "jwt_verify (Some demo_access_token) (JWT_SECRET demo_env) 5000 = Inr ?c"
    by (simp add: token_defs)
  have t: "c_type ?c \<noteq> ''employee_refresh''" by simp
  have r: "refresh demo_env 5000 (Some demo_access_token) demo_world
     = (Failure 401 (Text ''Invalid token type''), demo_world)"
    using token_type_matches_operation [of "Some demo_access_token" demo_env 5000 demo_world, THEN conjunct1,
            rule_format, OF conjI [OF v t]] .
  have a: "validate demo_env 5000 demo_access_token AccessToken = Inr ''64b7f0c2a1d3e4f5a6b7c8d9''"
    "validate demo_env 5000 demo_access_token RefreshToken = Inl TokenTypeMismatch"
    "validate demo_env 5000 demo_refresh_token AccessToken = Inl TokenTypeMismatch"
    by (simp_all add: token_defs type_claim_def)
  show ?thesis using v r a by simp
qed

subsection \<open>Submitting a batch\<close>

text \<open>With unique ids in the store, the documents the query finds are counted by the ids
  that resolve to a verified transaction.\<close>

lemma find_by_key_distinct:
  "distinct (map key xs) \<Longrightarrow> x \<in> set xs \<Longrightarrow> find (\<lambda>y. key y = key x) xs = Some x"
  by (induction xs) (auto simp: rev_image_eqI)

lemma find_Some_mem: "find P xs = Some x \<Longrightarrow> x \<in> set xs \<and> P x"
  by (induction xs) (auto split: if_splits)

lemma resolves_to_iff:
  assumes "distinct (map t_id (transactions w))"
  shows "resolves_to st w i \<longleftrightarrow> (\<exists>t \<in> set (transactions w). t_id t = ObjectId i \<and> status t = st)"
proof
  assume "resolves_to st w i"
  then show "\<exists>t \<in> set (transactions w). t_id t = ObjectId i \<and> status t = st"
    by (auto simp: resolves_to_def split: option.splits dest: find_Some_mem)
next
  assume "\<exists>t \<in> set (transactions w). t_id t = ObjectId i \<and> status t = st"
  then obtain t where t: "t \<in> set (transactions w)" "t_id t = ObjectId i" "status t = st" by blast
  from find_by_key_distinct [OF assms t(1)] t(2,3) show "resolves_to st w i"
    by (simp add: resolves_to_def)
qed

lemma found_count:
  assumes dt: "distinct (map t_id (transactions w))" and di: "distinct (map ObjectId ids)"
  shows "length (fst (Transaction_find_verified ids w)) = length (filter (resolves_to VERIFIED w) ids)"
proof -
  let ?Q = "\<lambda>t. t_id t \<in> set (map ObjectId ids) \<and> status t = VERIFIED"
  let ?F = "filter ?Q (transactions w)"
  let ?G = "filter (resolves_to VERIFIED w) ids"
  have dF: "distinct (map t_id ?F)" using dt by (rule distinct_map_filter)
  have dG: "distinct (map ObjectId ?G)" using di by (rule distinct_map_filter)
  have "set (map t_id ?F) = set (map ObjectId ?G)"
  proof (intro set_eqI iffI)
    fix k assume "k \<in> set (map t_id ?F)"
    then obtain t i where "t \<in> set (transactions w)" "t_id t = ObjectId i" "i \<in> set ids"
        "status t = VERIFIED" "k = t_id t"
      by auto
    then have "i \<in> set ?G" and "k = ObjectId i"
      by (auto simp: resolves_to_iff [OF dt])
    then show "k \<in> set (map ObjectId ?G)" by (simp only: set_map image_eqI)
  next
    fix k assume "k \<in> set (map ObjectId ?G)"
    then obtain i where i: "i \<in> set ids" "resolves_to VERIFIED w i" "k = ObjectId i" by auto
    then obtain t where "t \<in> set (transactions w)" "t_id t = ObjectId i" "status t = VERIFIED"
      using resolves_to_iff [OF dt] by blast
    then have "t \<in> set ?F" and "k = t_id t" using i by auto
    then show "k \<in> set (map t_id ?F)" by (simp only: set_map image_eqI)
  qed
  then have "card (set (map t_id ?F)) = card (set (map ObjectId ?G))" by simp
  then have "length (map t_id ?F) = length (map ObjectId ?G)"
    using distinct_card [OF dF] distinct_card [OF dG] by simp
  then show ?thesis by (simp add: Transaction_find_verified_def)
qed

lemma filter_length_all: "length (filter P xs) = length xs \<longleftrightarrow> list_all P xs"
proof
  assume eq: "length (filter P xs) = length xs"
  show "list_all P xs"
  proof (rule ccontr)
    assume "\<not> list_all P xs"
    then obtain x where "x \<in> set xs" "\<not> P x" by (auto simp: list_all_iff)
    then have "length (filter P xs) < length xs" by (rule length_filter_less)
    with eq show False by simp
  qed
next
  assume "list_all P xs"
  then have "filter P xs = xs" by (simp add: list_all_iff)
  then show "length (filter P xs) = length xs" by simp
qed

lemma filter_length_none: "length (filter P xs) = 0 \<longleftrightarrow> \<not> list_ex P xs"
  by (induction xs) auto

lemma markAsProcessing_transactions:
  assumes "distinct (map t_id (transactions w))" and "t \<in> set (transactions w)"
  shows "transactions (snd (markAsProcessing t w)) =
           map (\<lambda>x. if t_id x = t_id t then x\<lparr>status := PROCESSING\<rparr> else x) (transactions w)"
proof -
  have "\<And>x. x \<in> set (transactions w) \<Longrightarrow> t_id x = t_id t \<Longrightarrow> x = t"
    using assms by (meson distinct_map inj_onD)
  then show ?thesis
    by (auto simp: markAsProcessing_def save_transaction_def called_def)
qed

lemma submit_each_transactions:
  assumes "distinct (map t_id (transactions w))" and "distinct (map t_id fs)"
    and "set fs \<subseteq> set (transactions w)"
  shows "transactions (snd (submit_each emp fs acc w)) =
           map (\<lambda>x. if t_id x \<in> t_id ` set fs then x\<lparr>status := PROCESSING\<rparr> else x) (transactions w)"
  using assms
proof (induction fs arbitrary: acc w)
  case Nil then show ?case by simp
next
  case (Cons f fs)
  let ?w1 = "logPaymentEvent ''TRANSACTION_SUBMITTED_TO_SWIFT'' (t_id f) (e_id emp) (snd (markAsProcessing f w))"
  have fin: "f \<in> set (transactions w)" using Cons.prems(3) by simp
  have t1: "transactions ?w1 = map (\<lambda>x. if t_id x = t_id f then x\<lparr>status := PROCESSING\<rparr> else x) (transactions w)"
    using markAsProcessing_transactions [OF Cons.prems(1) fin] by (simp add: logPaymentEvent_def)
  have ids1: "map t_id (transactions ?w1) = map t_id (transactions w)"
    unfolding t1 by (induction "transactions w") auto
  have d1: "distinct (map t_id (transactions ?w1))" using Cons.prems(1) ids1 by simp
  have d2: "distinct (map t_id fs)" and nf: "t_id f \<notin> t_id ` set fs" using Cons.prems(2) by auto
  have s1: "set fs \<subseteq> set (transactions ?w1)"
  proof
    fix g assume g: "g \<in> set fs"
    then have "t_id g \<noteq> t_id f" using nf by (metis imageI)
    moreover have "g \<in> set (transactions w)" using g Cons.prems(3) by auto
    ultimately have "g \<in> set (transactions w)" and "t_id g \<noteq> t_id f" by simp_all
    then show "g \<in> set (transactions ?w1)" unfolding t1 by (auto simp: image_iff intro!: bexI [of _ g])
  qed
  have step: "submit_each emp (f # fs) acc w =
        submit_each emp fs (acc @ [toSubmitted (fst (markAsProcessing f w))]) ?w1"
    by (simp add: split_beta markAsProcessing_def save_transaction_def)
  show ?case
    unfolding step Cons.IH [OF d1 d2 s1] t1 using nf by (auto simp: comp_def)
qed

lemma submit_each_count: "length (fst (submit_each emp fs acc w)) = length acc + length fs"
  by (induction fs arbitrary: acc w) (auto simp: split_beta)

lemma submit_each_employees: "employees (snd (submit_each emp fs acc w)) = employees w"
  by (induction fs arbitrary: acc w)
     (auto simp: split_beta markAsProcessing_def save_transaction_def called_def logPaymentEvent_def)

lemma submitToSwift_checked:
  assumes "ids \<noteq> []" and "length ids \<le> 50" and "list_all objectId_pattern ids"
  shows "submitToSwift emp (Some ids) w =
     (let found = fst (Transaction_find_verified ids w); w1 = called (TransactionFind ids) w in
      if length found = 0 then (Failure 404 (Text ''No verified transactions found''), w1)
      else if length found \<noteq> length ids then
        (Failure 400 (Text ''Some transactions are not in VERIFIED status or do not exist''), w1)
      else (SubmitOk (fst (submit_each emp found [] w1)) (length (fst (submit_each emp found [] w1))),
            snd (submit_each emp found [] w1)))"
proof -
  have "find (\<lambda>i. \<not> objectId_pattern i) ids = None"
    using assms(3) by (simp add: find_None_iff list_all_iff)
  then show ?thesis using assms(1,2)
    by (simp add: submitToSwift_def Transaction_find_verified_def Let_def split_beta)
qed

text \<open>
  \<^bold>\<open>C5, as stated, fails\<close> in two places. A batch of one id that resolves to a PENDING
  transaction is answered 404 \<^verbatim>\<open>No verified transactions found\<close>, not with the error
  of a partly invalid batch. A batch that names one verified transaction twice has all its
  ids resolving to a VERIFIED transaction, and is refused with 400, the transactions left
  as they were: the query returns the document once and the counts differ.
\<close>

theorem submit_batch_counterexample:
  "\<not> resolves_to VERIFIED batch_world ''507f1f77bcf86cd799439011'' \<and>
   fst (submitToSwift demo_employee (Some [''507f1f77bcf86cd799439011'']) batch_world)
     = Failure 404 (Text ''No verified transactions found'') \<and>
   resolves_to VERIFIED batch_world ''507f1f77bcf86cd79943901a'' \<and>
   submitToSwift demo_employee
       (Some [''507f1f77bcf86cd79943901a'', ''507f1f77bcf86cd79943901a'']) batch_world
     = (Failure 400 (Text ''Some transactions are not in VERIFIED status or do not exist''),
        called (TransactionFind [''507f1f77bcf86cd79943901a'', ''507f1f77bcf86cd79943901a''])
          batch_world)"
  by (simp add: resolves_to_def submitToSwift_def Transaction_find_verified_def batch_defs
        objectId_pattern_def digit_chars_def)

text \<open>
  \<^bold>\<open>C5, amended.\<close> For a batch of 1 to 50 well-formed ids that name pairwise different
  transactions, over a store with unique ids: when no id resolves to a VERIFIED transaction
  the answer is 404 \<^verbatim>\<open>No verified transactions found\<close>; when some but not all do, the
  answer is 400 \<^verbatim>\<open>Some transactions are not in VERIFIED status or do not exist\<close>; in
  both cases the world changes by the logged query only, so no transaction is mutated.
  When all do, the call succeeds with as many entries as ids, every transaction of the
  batch is PROCESSING afterwards, every other transaction is as it was, and no employee
  changes.
\<close>

theorem submit_batch_all_or_nothing:
  assumes "ids \<noteq> []" and "length ids \<le> 50" and "list_all objectId_pattern ids"
    and di: "distinct (map ObjectId ids)" and dt: "distinct (map t_id (transactions w))"
  shows "(\<not> list_ex (resolves_to VERIFIED w) ids \<longrightarrow>
            submitToSwift emp (Some ids) w =
              (Failure 404 (Text ''No verified transactions found''), called (TransactionFind ids) w))
       \<and> (list_ex (resolves_to VERIFIED w) ids \<and> \<not> list_all (resolves_to VERIFIED w) ids \<longrightarrow>
            submitToSwift emp (Some ids) w =
              (Failure 400 (Text ''Some transactions are not in VERIFIED status or do not exist''),
               called (TransactionFind ids) w))
       \<and> (list_all (resolves_to VERIFIED w) ids \<longrightarrow>
            (\<exists>subs w'. submitToSwift emp (Some ids) w = (SubmitOk subs (length ids), w')
               \<and> length subs = length ids
               \<and> transactions w' =
                   map (\<lambda>x. if t_id x \<in> ObjectId ` set ids then x\<lparr>status := PROCESSING\<rparr> else x)
                     (transactions w)
               \<and> list_all (resolves_to PROCESSING w') ids
               \<and> employees w' = employees w))"
proof -
  let ?found = "fst (Transaction_find_verified ids w)"
  let ?w1 = "called (TransactionFind ids) w"
  let ?R = "resolves_to VERIFIED w"
  note sub = submitToSwift_checked [OF assms(1-3), of emp w]
  have cnt: "length ?found = length (filter ?R ids)" using found_count [OF dt di] .
  have none: "length ?found = 0 \<longleftrightarrow> \<not> list_ex ?R ids"
    unfolding cnt by (rule filter_length_none)
  have all: "length ?found = length ids \<longleftrightarrow> list_all ?R ids"
    unfolding cnt by (rule filter_length_all)
  have c1: "\<not> list_ex ?R ids \<longrightarrow> submitToSwift emp (Some ids) w =
              (Failure 404 (Text ''No verified transactions found''), ?w1)"
    using none by (simp add: sub Let_def)
  have c2: "list_ex ?R ids \<and> \<not> list_all ?R ids \<longrightarrow> submitToSwift emp (Some ids) w =
              (Failure 400 (Text ''Some transactions are not in VERIFIED status or do not exist''), ?w1)"
    using none all by (simp add: sub Let_def)
  have c3: "list_all ?R ids \<longrightarrow>
            (\<exists>subs w'. submitToSwift emp (Some ids) w = (SubmitOk subs (length ids), w')
               \<and> length subs = length ids
               \<and> transactions w' =
                   map (\<lambda>x. if t_id x \<in> ObjectId ` set ids then x\<lparr>status := PROCESSING\<rparr> else x)
                     (transactions w)
               \<and> list_all (resolves_to PROCESSING w') ids
               \<and> employees w' = employees w)"
  proof
    assume ok: "list_all ?R ids"
    let ?subs = "fst (submit_each emp ?found [] ?w1)"
    let ?w' = "snd (submit_each emp ?found [] ?w1)"
    have len: "length ?found = length ids" using ok all by simp
    have ne: "?found \<noteq> []" using len assms(1) by (metis length_0_conv)
    have r: "submitToSwift emp (Some ids) w = (SubmitOk ?subs (length ?subs), ?w')"
      using len ne by (simp add: sub Let_def)
    have ls: "length ?subs = length ids" using len by (simp add: submit_each_count)
    have tw1: "transactions ?w1 = transactions w" by (simp add: called_def)
    have dF: "distinct (map t_id ?found)"
      using dt by (simp add: Transaction_find_verified_def distinct_map_filter)
    have sF: "set ?found \<subseteq> set (transactions ?w1)"
      by (auto simp: Transaction_find_verified_def called_def)
    have d1: "distinct (map t_id (transactions ?w1))" using dt tw1 by simp
    have inj: "\<And>x y. x \<in> set (transactions w) \<Longrightarrow> y \<in> set (transactions w) \<Longrightarrow> t_id x = t_id y \<Longrightarrow> x = y"
      using dt by (meson distinct_map inj_onD)
    have mem: "\<And>x. x \<in> set (transactions w) \<Longrightarrow>
                 (t_id x \<in> t_id ` set ?found) = (t_id x \<in> ObjectId ` set ids)"
    proof
      fix x assume x: "x \<in> set (transactions w)" and "t_id x \<in> t_id ` set ?found"
      then show "t_id x \<in> ObjectId ` set ids"
        by (auto simp: Transaction_find_verified_def)
    next
      fix x assume x: "x \<in> set (transactions w)" and "t_id x \<in> ObjectId ` set ids"
      then obtain i where i: "i \<in> set ids" "t_id x = ObjectId i" by auto
      then have "?R i" using ok by (simp add: list_all_iff)
      then obtain t where t: "t \<in> set (transactions w)" "t_id t = ObjectId i" "status t = VERIFIED"
        using resolves_to_iff [OF dt] by blast
      then have "t = x" using inj [OF t(1) x] i(2) by simp
      then have "x \<in> set ?found" using t x i by (auto simp: Transaction_find_verified_def)
      then show "t_id x \<in> t_id ` set ?found" by (rule imageI)
    qed
    have tw: "transactions ?w' =
                map (\<lambda>x. if t_id x \<in> ObjectId ` set ids then x\<lparr>status := PROCESSING\<rparr> else x)
                  (transactions w)"
      unfolding submit_each_transactions [OF d1 dF sF] tw1
      by (rule map_cong [OF refl]) (simp add: mem)
    have dw: "distinct (map t_id (transactions ?w'))"
    proof -
      have "map t_id (transactions ?w') = map t_id (transactions w)"
        unfolding tw by (induction "transactions w") auto
      then show ?thesis using dt by simp
    qed
    have pr: "list_all (resolves_to PROCESSING ?w') ids"
      unfolding list_all_iff
    proof
      fix i assume i: "i \<in> set ids"
      then have "?R i" using ok by (simp add: list_all_iff)
      then obtain t where t: "t \<in> set (transactions w)" "t_id t = ObjectId i"
        using resolves_to_iff [OF dt] by blast
      then have "t\<lparr>status := PROCESSING\<rparr> \<in> set (transactions ?w')"
        unfolding tw using i by (auto simp: image_iff intro!: bexI [of _ t])
      then show "resolves_to PROCESSING ?w' i"
        unfolding resolves_to_iff [OF dw] using t(2) by (auto intro!: bexI [of _ "t\<lparr>status := PROCESSING\<rparr>"])
    qed
    have em: "employees ?w' = employees w" by (simp add: submit_each_employees called_def)
    show "\<exists>subs w'. submitToSwift emp (Some ids) w = (SubmitOk subs (length ids), w')
               \<and> length subs = length ids
               \<and> transactions w' =
                   map (\<lambda>x. if t_id x \<in> ObjectId ` set ids then x\<lparr>status := PROCESSING\<rparr> else x)
                     (transactions w)
               \<and> list_all (resolves_to PROCESSING w') ids
               \<and> employees w' = employees w"
      using r ls tw pr em by (intro exI [of _ ?subs] exI [of _ ?w']) simp
  qed
  show ?thesis using c1 c2 c3 by (intro conjI)
qed

theorem submit_batch_witness:
  "submitToSwift demo_employee
       (Some [''507f1f77bcf86cd79943901a'', ''507f1f77bcf86cd79943901b'',
              ''507f1f77bcf86cd79943901c'', ''507f1f77bcf86cd799439011'']) batch_world
     = (Failure 400 (Text ''Some transactions are not in VERIFIED status or do not exist''),
        called (TransactionFind [''507f1f77bcf86cd79943901a'', ''507f1f77bcf86cd79943901b'',
              ''507f1f77bcf86cd79943901c'', ''507f1f77bcf86cd799439011'']) batch_world) \<and>
   (\<exists>subs w'. submitToSwift demo_employee
       (Some [''507f1f77bcf86cd79943901a'', ''507f1f77bcf86cd79943901b'',
              ''507f1f77bcf86cd79943901c'']) batch_world = (SubmitOk subs 3, w')
      \<and> transactions w' =
          [verified_a\<lparr>status := PROCESSING\<rparr>, verified_b\<lparr>status := PROCESSING\<rparr>,
           verified_c\<lparr>status := PROCESSING\<rparr>, large_txn])"
proof -
  let ?a = "''507f1f77bcf86cd79943901a''" and ?b = "''507f1f77bcf86cd79943901b''"
  let ?c = "''507f1f77bcf86cd79943901c''" and ?p = "''507f1f77bcf86cd799439011''"
  have dt: "distinct (map t_id (transactions batch_world))" by (simp add: batch_defs)
  have ra: "resolves_to VERIFIED batch_world ?a" and rb: "resolves_to VERIFIED batch_world ?b"
    and rc: "resolves_to VERIFIED batch_world ?c" and rp: "\<not> resolves_to VERIFIED batch_world ?p"
    by (simp_all add: resolves_to_def batch_defs)
  have pa: "objectId_pattern ?a" and pb: "objectId_pattern ?b" and pc: "objectId_pattern ?c"
    and pp: "objectId_pattern ?p"
    by (simp_all add: objectId_pattern_def digit_chars_def)
  have o: "ObjectId ?a = ?a" "ObjectId ?b = ?b" "ObjectId ?c = ?c" "ObjectId ?p = ?p"
    by (simp_all add: ObjectId_def hex_lower_def)
  have d4: "distinct (map ObjectId [?a, ?b, ?c, ?p])" by (simp add: o)
  have d3: "distinct (map ObjectId [?a, ?b, ?c])" by (simp add: o)
  have four: "submitToSwift demo_employee (Some [?a, ?b, ?c, ?p]) batch_world
     = (Failure 400 (Text ''Some transactions are not in VERIFIED status or do not exist''),
        called (TransactionFind [?a, ?b, ?c, ?p]) batch_world)"
    using submit_batch_all_or_nothing [where ids = "[?a, ?b, ?c, ?p]" and w = batch_world and emp = demo_employee,
              OF _ _ _ d4 dt] ra rb rc rp pa pb pc pp
    by simp
  obtain subs w' where
    s3: "submitToSwift demo_employee (Some [?a, ?b, ?c]) batch_world
            = (SubmitOk subs (length [?a, ?b, ?c]), w')"
    and t3: "transactions w' =
          map (\<lambda>x. if t_id x \<in> ObjectId ` set [?a, ?b, ?c] then x\<lparr>status := PROCESSING\<rparr> else x)
            (transactions batch_world)"
    using submit_batch_all_or_nothing [where ids = "[?a, ?b, ?c]" and w = batch_world and emp = demo_employee,
              OF _ _ _ d3 dt] ra rb rc pa pb pc
    by auto
  have m: "map (\<lambda>x. if t_id x \<in> ObjectId ` set [?a, ?b, ?c] then x\<lparr>status := PROCESSING\<rparr> else x)
            (transactions batch_world)
         = [verified_a\<lparr>status := PROCESSING\<rparr>, verified_b\<lparr>status := PROCESSING\<rparr>,
           verified_c\<lparr>status := PROCESSING\<rparr>, large_txn]"
    by (simp add: batch_defs)
  have three: "\<exists>subs w'. submitToSwift demo_employee (Some [?a, ?b, ?c]) batch_world
            = (SubmitOk subs 3, w')
      \<and> transactions w' =
          [verified_a\<lparr>status := PROCESSING\<rparr>, verified_b\<lparr>status := PROCESSING\<rparr>,
           verified_c\<lparr>status := PROCESSING\<rparr>, large_txn]"
    using s3 t3 [unfolded m] by (intro exI [of _ subs] exI [of _ w']) simp
  show ?thesis using four three by (rule conjI)
qed

end
